theory Spec2Isabelle
  imports Main "HOL-Library.Sublist"
begin

section \<open>Strings, paths and the pieces of the Python library the script relies on\<close>

text \<open>
  The script \<^verbatim>\<open>vhost-generator.py\<close> is a linear pipeline over four external services
  (Elastic Beanstalk, S3, MySQL on RDS, Route 53) and a scratch directory \<^verbatim>\<open>/tmp\<close>.
  Python strings are modelled as HOL strings; a \<^typ>\<open>char\<close> stands for a code point
  below 256.
\<close>

definition dst_path :: string where
  "dst_path = ''/tmp''"

definition object_list :: string where
  "object_list = dst_path @ ''/object_list.txt''"

text \<open>\<^verbatim>\<open>str.isspace\<close> on code points below 256, and \<^verbatim>\<open>str.strip()\<close>.\<close>

definition py_isspace :: "char \<Rightarrow> bool" where
  "py_isspace c = (c \<in> {CHR 0x09, CHR 0x0A, CHR 0x0B, CHR 0x0C, CHR 0x0D, CHR 0x1C, CHR 0x1D,
     CHR 0x1E, CHR 0x1F, CHR 0x20, CHR 0x85, CHR 0xA0})"

definition strip :: "string \<Rightarrow> string" where
  "strip s = rev (dropWhile py_isspace (rev (dropWhile py_isspace s)))"

text \<open>
  Iterating over a file opened in text mode: the content is cut after every line
  terminator; with universal newlines \<^verbatim>\<open>\r\<close> and \<^verbatim>\<open>\r\n\<close> are terminators too and
  are handed to the program as \<^verbatim>\<open>\n\<close>. The accumulator holds the line read so far.
\<close>

function split_lines :: "string \<Rightarrow> string \<Rightarrow> string list" where
  "split_lines acc [] = (if acc = [] then [] else [acc])"
| "split_lines acc (c # cs) =
     (if c = CHR 0x0A then (acc @ [CHR 0x0A]) # split_lines [] cs
      else if c = CHR 0x0D then
        (acc @ [CHR 0x0A]) # split_lines [] (if cs \<noteq> [] \<and> hd cs = CHR 0x0A then tl cs else cs)
      else split_lines (acc @ [c]) cs)"
  by pat_completeness auto
termination
  by (relation "measure (\<lambda>(acc, cs). length cs)") auto

definition readlines :: "string \<Rightarrow> string list" where
  "readlines content = split_lines [] content"

text \<open>
  \<^verbatim>\<open>re.search(pattern, line)\<close>. The pattern the script builds is the live version label
  followed by \<^verbatim>\<open>.zip\<close>, handed to the regular-expression compiler as it is. The
  fragment computed here is the one of patterns whose only metacharacter is the dot:
  a dot stands for any character but the newline, every other character for itself,
  and the search tries every offset. For a pattern with another metacharacter the
  answer of the library is a parameter of the model (\<open>None\<close>: the pattern does not
  compile and \<^verbatim>\<open>re.error\<close> is raised).
\<close>

definition re_special :: "char \<Rightarrow> bool" where
  "re_special c = (c = CHR 0x5C \<or> c \<in> set ''^$*+?{}[]|()'')"

definition in_fragment :: "string \<Rightarrow> bool" where
  "in_fragment pat = list_all (\<lambda>c. \<not> re_special c) pat"

fun match_here :: "string \<Rightarrow> string \<Rightarrow> bool" where
  "match_here [] s = True"
| "match_here (p # ps) [] = False"
| "match_here (p # ps) (c # cs) =
     ((if p = CHR ''.'' then c \<noteq> CHR 0x0A else p = c) \<and> match_here ps cs)"

fun search_from :: "string \<Rightarrow> string \<Rightarrow> bool" where
  "search_from pat [] = match_here pat []"
| "search_from pat (c # cs) = (match_here pat (c # cs) \<or> search_from pat cs)"

definition re_search :: "(string \<Rightarrow> string \<Rightarrow> bool option) \<Rightarrow> string \<Rightarrow> string \<Rightarrow> bool option" where
  "re_search other pat s = (if in_fragment pat then Some (search_from pat s) else other pat s)"

text \<open>
  The loop \<^verbatim>\<open>for key in fh: if re.search(...): return key.strip()\<close>: the first line that
  matches, \<open>Some None\<close> when the loop runs off the end of the file, \<open>None\<close> when the
  search raises.
\<close>

fun first_match :: "(string \<Rightarrow> bool option) \<Rightarrow> string list \<Rightarrow> string option option" where
  "first_match m [] = Some None"
| "first_match m (l # ls) =
     (case m l of
        None \<Rightarrow> None
      | Some True \<Rightarrow> Some (Some l)
      | Some False \<Rightarrow> first_match m ls)"

text \<open>
  \<^verbatim>\<open>os.path.splitext(p)[0]\<close> on POSIX: the extension starts at the last dot of the last
  path component, unless only dots stand before it in that component.
\<close>

definition basename :: "string \<Rightarrow> string" where
  "basename p = rev (takeWhile (\<lambda>c. c \<noteq> CHR ''/'') (rev p))"

definition dirpart :: "string \<Rightarrow> string" where
  "dirpart p = rev (dropWhile (\<lambda>c. c \<noteq> CHR ''/'') (rev p))"

definition parent :: "string \<Rightarrow> string" where
  "parent p = butlast (dirpart p)"

definition splitext_root :: "string \<Rightarrow> string" where
  "splitext_root p =
     (let b = basename p;
          stem = rev (tl (dropWhile (\<lambda>c. c \<noteq> CHR ''.'') (rev b)))
      in if CHR ''.'' \<in> set b \<and> \<not> list_all (\<lambda>c. c = CHR ''.'') stem then dirpart p @ stem
         else p)"

text \<open>\<^verbatim>\<open>'{:02d}'.format(n)\<close> and \<^verbatim>\<open>'{:04d}'.format(n)\<close> for a number that is not negative.\<close>

definition digit_char :: "nat \<Rightarrow> char" where
  "digit_char d = ''0123456789'' ! d"

fun str_nat :: "nat \<Rightarrow> string" where
  "str_nat n = (if n < 10 then [digit_char n] else str_nat (n div 10) @ [digit_char (n mod 10)])"

declare str_nat.simps [simp del]

definition format_d :: "nat \<Rightarrow> nat \<Rightarrow> string" where
  "format_d w n = replicate (w - length (str_nat n)) (CHR ''0'') @ str_nat n"


section \<open>Configuration, environment and state\<close>

text \<open>
  The values the script imports from the module \<^verbatim>\<open>variables\<close> are the fields of a
  configuration record. The script only formats them into strings and hands them to
  the services, so each is represented by its text.
\<close>

record config =
  domain :: string
  app_name :: string
  env_id :: string
  env_name :: string
  bucket :: string
  hosted_zone_id :: string
  eb_url :: string
  rds_hostname :: string
  rds_username :: string
  rds_password :: string
  rds_port :: string

record datetime =
  year :: nat
  month :: nat
  day :: nat
  hour :: nat
  minute :: nat
  second :: nat

text \<open>The ranges \<^verbatim>\<open>datetime\<close> guarantees for its fields.\<close>

definition valid_datetime :: "datetime \<Rightarrow> bool" where
  "valid_datetime t =
     (1 \<le> year t \<and> year t \<le> 9999 \<and> 1 \<le> month t \<and> month t \<le> 12 \<and> 1 \<le> day t \<and> day t \<le> 31 \<and>
      hour t < 24 \<and> minute t < 60 \<and> second t < 60)"

text \<open>
  What the script observes and does outside itself, in the order it happens. Calls are
  recorded when they are issued, whether or not they succeed.
\<close>

datatype call =
    LogInfo string
  | LogError
  | EbDescribeInstancesHealth string
  | S3ListObjects string
  | S3DownloadFile string string string
  | S3UploadFile string string string
  | EbCreateApplicationVersion string string string
  | EbDescribeApplicationVersions string string
  | EbUpdateEnvironment string string string
  | DbConnect string string string
  | DbExecute string
  | DbRollback
  | DbClose
  | R53CreateRecord string string string

text \<open>
  The answers of the outside world. \<open>None\<close> or \<open>False\<close> stands for a call that raises.
  \<^item> \<open>now\<close> is what \<^verbatim>\<open>datetime.now()\<close> returns, the wall clock of the local time zone;
    \<open>utcnow\<close> is the reading of the UTC clock at the same moment;
  \<^item> \<open>eb_health\<close> is \<^verbatim>\<open>response['InstanceHealthList'][0]['Deployment']['VersionLabel']\<close>
    of \<^verbatim>\<open>describe_instances_health\<close>, \<open>None\<close> when the call or one of the lookups raises;
  \<^item> \<open>s3_keys\<close> are the keys \<^verbatim>\<open>objects.all()\<close> yields, in listing order (a listing that
    raises does so before its first key);
  \<^item> \<open>re_other\<close> answers \<^verbatim>\<open>re.search\<close> for the patterns that the fragment of regular
    expressions computed above does not cover;
  \<^item> \<open>s3_get\<close> gives the bytes of an object, \<open>unzip\<close> the directories and the files
    (with their contents) an archive unpacks to, relative to the extraction directory,
    \<open>make_zip\<close> the bytes of the archive \<^verbatim>\<open>shutil.make_archive\<close> builds from a directory;
  \<^item> \<open>version_status v i\<close> is \<^verbatim>\<open>response['ApplicationVersions'][0]['Status']\<close> of the
    \<open>i\<close>-th status poll for version \<open>v\<close>, counted from 0;
  \<^item> the remaining fields say whether a call succeeds: \<^verbatim>\<open>upload_file\<close> (by key),
    \<^verbatim>\<open>create_application_version\<close> and \<^verbatim>\<open>update_environment\<close> (by version label),
    \<^verbatim>\<open>pymysql.connect\<close>, \<^verbatim>\<open>cursor.execute\<close> (by statement), \<^verbatim>\<open>rollback\<close>, \<^verbatim>\<open>close\<close>, and
    \<^verbatim>\<open>change_resource_record_sets\<close> (by record name).
\<close>

record env =
  cfg :: config
  now :: datetime
  utcnow :: datetime
  eb_health :: "string option"
  s3_keys :: "string list option"
  re_other :: "string \<Rightarrow> string \<Rightarrow> bool option"
  s3_get :: "string \<Rightarrow> string option"
  unzip :: "string \<Rightarrow> (string list \<times> (string \<times> string) list) option"
  make_zip :: "string \<Rightarrow> string option"
  s3_put_ok :: "string \<Rightarrow> bool"
  eb_create_ok :: "string \<Rightarrow> bool"
  version_status :: "string \<Rightarrow> nat \<Rightarrow> string option"
  eb_update_ok :: "string \<Rightarrow> bool"
  db_connect_ok :: bool
  db_execute_ok :: "string \<Rightarrow> bool"
  db_rollback_ok :: bool
  db_close_ok :: bool
  r53_ok :: "string \<Rightarrow> bool"

text \<open>
  The local file system (regular files with their contents, and directories, both by
  path as the script spells it; paths are compared as strings) and the calls made so
  far.
\<close>

record state =
  files :: "string \<Rightarrow> string option"
  dirs :: "string set"
  trace :: "call list"

text \<open>
  How a function of the script ends: it returns a value, it calls \<^verbatim>\<open>sys.exit\<close>
  (\<^verbatim>\<open>SystemExit\<close> is not an \<^verbatim>\<open>Exception\<close>, so no handler of the script catches it), or an
  \<^verbatim>\<open>Exception\<close> leaves it.
\<close>

datatype 'a outcome = Return 'a | SysExit nat | Raise

definition record_calls :: "call list \<Rightarrow> state \<Rightarrow> state" where
  "record_calls cs s = s\<lparr>trace := trace s @ cs\<rparr>"

text \<open>The handler \<^verbatim>\<open>except Exception as e: logger.error(e, exc_info=True); sys.exit(1)\<close>.\<close>

definition log_and_exit :: "state \<Rightarrow> 'a outcome \<times> state" where
  "log_and_exit s = (SysExit 1, record_calls [LogError] s)"

text \<open>\<^verbatim>\<open>open(path, 'w')\<close> or \<^verbatim>\<open>'a'\<close> succeeds in an existing directory, on a path that is no directory.\<close>

definition can_open_for_writing :: "state \<Rightarrow> string \<Rightarrow> bool" where
  "can_open_for_writing s path = (parent path \<in> dirs s \<and> path \<notin> dirs s \<and> basename path \<noteq> [])"

definition path_exists :: "state \<Rightarrow> string \<Rightarrow> bool" where
  "path_exists s path = (path \<in> dirs s \<or> files s path \<noteq> None)"

section \<open>The functions of the script\<close>

text \<open>
  \<^verbatim>\<open>clean_up\<close>: both removals stand in one \<^verbatim>\<open>try\<close> whose handler swallows everything, so
  when \<^verbatim>\<open>os.unlink\<close> raises (no such file) \<^verbatim>\<open>shutil.rmtree\<close> is not reached.
\<close>

definition is_below :: "string \<Rightarrow> string \<Rightarrow> bool" where
  "is_below d path = prefix (d @ ''/'') path"

definition rmtree :: "string \<Rightarrow> state \<Rightarrow> state" where
  "rmtree d s =
     s\<lparr>files := (\<lambda>path. if is_below d path then None else files s path),
       dirs := {path \<in> dirs s. path \<noteq> d \<and> \<not> is_below d path}\<rparr>"

definition clean_up :: "string \<Rightarrow> state \<Rightarrow> state" where
  "clean_up extraction_path s =
     (case files s object_list of
        None \<Rightarrow> s
      | Some _ \<Rightarrow>
          (let s1 = s\<lparr>files := (files s)(object_list := None)\<rparr>
           in if extraction_path \<in> dirs s1 then rmtree extraction_path s1 else s1))"

text \<open>
  \<^verbatim>\<open>check_version\<close>. The index file is opened with mode \<^verbatim>\<open>'a'\<close>: it is created when it
  does not exist, and what it holds is kept; \<open>index_text\<close> is what the loop
  \<^verbatim>\<open>fh.write('{0}\n'.format(obj.key))\<close> appends. Falling out of the \<^verbatim>\<open>for\<close> loop ends
  the function with Python's implicit \<^verbatim>\<open>return None\<close>.
\<close>

definition index_text :: "string list \<Rightarrow> string" where
  "index_text keys = concat (map (\<lambda>k. k @ [CHR 0x0A]) keys)"

definition check_version :: "env \<Rightarrow> state \<Rightarrow> string option outcome \<times> state" where
  "check_version E s =
     (let s1 = record_calls [LogInfo ''Getting app version'',
                 EbDescribeInstancesHealth (env_name (cfg E))] s
      in case eb_health E of
           None \<Rightarrow> log_and_exit s1
         | Some current_version \<Rightarrow>
             (let s2 = record_calls [LogInfo (''Current app version: '' @ current_version),
                         LogInfo (''Finding the app version in '' @ bucket (cfg E))] s1
              in if \<not> can_open_for_writing s2 object_list then log_and_exit s2
                 else
                   (let old = (case files s2 object_list of None \<Rightarrow> [] | Some c \<Rightarrow> c);
                        s3 = record_calls [S3ListObjects (bucket (cfg E))]
                               (s2\<lparr>files := (files s2)(object_list \<mapsto> old)\<rparr>)
                    in case s3_keys E of
                         None \<Rightarrow> log_and_exit s3
                       | Some keys \<Rightarrow>
                           (let content = old @ index_text keys;
                                s4 = s3\<lparr>files := (files s3)(object_list \<mapsto> content)\<rparr>
                            in case first_match
                                      (re_search (re_other E) (current_version @ ''.zip''))
                                      (readlines content) of
                                 None \<Rightarrow> log_and_exit s4
                               | Some None \<Rightarrow> (Return None, s4)
                               | Some (Some key) \<Rightarrow> (Return (Some (strip key)), s4)))))"


text \<open>
  \<^verbatim>\<open>download_from_s3\<close>. \<^verbatim>\<open>'{0}/{1}'.format(dst_path, key)\<close> renders a missing key as
  \<^verbatim>\<open>None\<close>; the download itself rejects a key that is not a string before it contacts
  the service. \<^verbatim>\<open>os.makedirs\<close> raises when the path exists already.
\<close>

definition py_str :: "string option \<Rightarrow> string" where
  "py_str key = (case key of None \<Rightarrow> ''None'' | Some k \<Rightarrow> k)"

definition extract_into :: "string \<Rightarrow> string list \<times> (string \<times> string) list \<Rightarrow> state \<Rightarrow> state" where
  "extract_into d entries s =
     s\<lparr>files := fold (\<lambda>(name, content) m. m(d @ ''/'' @ name \<mapsto> content)) (snd entries) (files s),
       dirs := dirs s \<union> (\<lambda>name. d @ ''/'' @ name) ` set (fst entries)\<rparr>"

definition download_from_s3 :: "env \<Rightarrow> string option \<Rightarrow> state \<Rightarrow> string outcome \<times> state" where
  "download_from_s3 E key s =
     (let file_path = dst_path @ ''/'' @ py_str key;
          extraction_path = splitext_root file_path;
          s1 = record_calls [LogInfo (''Downloading app version to '' @ extraction_path)] s
      in case key of
           None \<Rightarrow> log_and_exit s1
         | Some k \<Rightarrow>
             (let s2 = record_calls [S3DownloadFile (bucket (cfg E)) k file_path] s1
              in case s3_get E k of
                   None \<Rightarrow> log_and_exit s2
                 | Some bytes \<Rightarrow>
                     if \<not> can_open_for_writing s2 file_path then log_and_exit s2
                     else
                       (let s3 = s2\<lparr>files := (files s2)(file_path \<mapsto> bytes)\<rparr>
                        in if path_exists s3 extraction_path then log_and_exit s3
                           else
                             (let s4 = s3\<lparr>dirs := insert extraction_path (dirs s3)\<rparr>
                              in case unzip E bytes of
                                   None \<Rightarrow> log_and_exit s4
                                 | Some entries \<Rightarrow>
                                     (Return extraction_path,
                                      record_calls [LogInfo ''App downloaded'']
                                        (extract_into extraction_path entries s4))))))"

text \<open>\<^verbatim>\<open>create_vhost\<close>: the template, rendered by \<^verbatim>\<open>str.format\<close> with nothing escaped.\<close>

definition vhost_template :: "config \<Rightarrow> string \<Rightarrow> string" where
  \<open>vhost_template c customer =
     ''<VirtualHost *:80>'' @ [CHR 0x0A] @
     ''    ServerName '' @ customer @ ''.'' @ domain c @ [CHR 0x0A] @
     ''    ServerAlias www.'' @ customer @ ''.'' @ domain c @ [CHR 0x0A] @
     ''    DocumentRoot /var/www/clients/'' @ customer @ [CHR 0x0A] @
     [CHR 0x0A] @
     ''    SetEnv RDS_HOSTNAME "'' @ rds_hostname c @ ''"'' @ [CHR 0x0A] @
     ''    SetEnv RDS_DB_NAME "'' @ customer @ ''"'' @ [CHR 0x0A] @
     ''    SetEnv RDS_USERNAME "'' @ rds_username c @ ''"'' @ [CHR 0x0A] @
     ''    SetEnv RDS_PASSWORD "'' @ rds_password c @ ''"'' @ [CHR 0x0A] @
     ''    SetEnv RDS_PORT "'' @ rds_port c @ ''"'' @ [CHR 0x0A] @
     ''</VirtualHost>'' @ [CHR 0x0A]\<close>

definition vhost_conf_path :: "string \<Rightarrow> string \<Rightarrow> string" where
  "vhost_conf_path extraction_path customer =
     (let ebextensions_path = extraction_path @ ''/.ebextensions'';
          vhosts_path = ebextensions_path @ ''/vhosts''
      in vhosts_path @ ''/'' @ customer @ ''.conf'')"

definition create_vhost :: "env \<Rightarrow> string \<Rightarrow> string \<Rightarrow> state \<Rightarrow> unit outcome \<times> state" where
  "create_vhost E customer extraction_path s =
     (let conf = vhost_conf_path extraction_path customer;
          s1 = record_calls [LogInfo ''Creating VirtualHost config''] s
      in if \<not> can_open_for_writing s1 conf then log_and_exit s1
         else (Return (),
               record_calls [LogInfo ''VirtualHost config created'']
                 (s1\<lparr>files := (files s1)(conf \<mapsto> vhost_template (cfg E) customer)\<rparr>)))"

text \<open>
  \<^verbatim>\<open>deploy_app\<close>. The version label is built from \<^verbatim>\<open>datetime.now()\<close>.
  \<^verbatim>\<open>shutil.make_archive\<close> changes into the directory it packs and raises when there is
  none. The status loop
  \<^verbatim>\<open>while True\<close> has one way out, the \<^verbatim>\<open>break\<close> on \<^verbatim>\<open>PROCESSED\<close>, besides an exception of
  the call; a loop that never ends is the value \<open>None\<close>.
\<close>

definition compact_timestamp :: "datetime \<Rightarrow> string" where
  "compact_timestamp t =
     format_d 4 (year t) @ format_d 2 (month t) @ format_d 2 (day t) @ ''-'' @
     format_d 2 (hour t) @ format_d 2 (minute t) @ format_d 2 (second t)"

definition new_app_version :: "env \<Rightarrow> string" where
  "new_app_version E = domain (cfg E) @ ''-'' @ compact_timestamp (now E)"

partial_function (option) poll_status :: "env \<Rightarrow> string \<Rightarrow> nat \<Rightarrow> state \<Rightarrow> (unit outcome \<times> state) option" where
  "poll_status E v i s =
     (let s1 = record_calls [EbDescribeApplicationVersions (app_name (cfg E)) v] s
      in case version_status E v i of
           None \<Rightarrow> Some (Raise, s1)
         | Some app_status \<Rightarrow>
             if ''PROCESSED'' = app_status then Some (Return (), s1)
             else poll_status E v (Suc i) s1)"

declare poll_status.simps [code]

definition deploy_app :: "env \<Rightarrow> string \<Rightarrow> state \<Rightarrow> (string outcome \<times> state) option" where
  "deploy_app E dir_name s =
     (let v = new_app_version E;
          output_filename = dst_path @ ''/'' @ v
      in if dir_name \<notin> dirs s then Some (log_and_exit s)
         else case make_zip E dir_name of
           None \<Rightarrow> Some (log_and_exit s)
         | Some bytes \<Rightarrow>
             (let s1 = record_calls [LogInfo (''Deploying '' @ v @ '' to Elastic Beanstalk''),
                         S3UploadFile (bucket (cfg E)) (output_filename @ ''.zip'') (v @ ''.zip'')]
                         (s\<lparr>files := (files s)(output_filename @ ''.zip'' \<mapsto> bytes)\<rparr>)
              in if \<not> s3_put_ok E (v @ ''.zip'') then Some (log_and_exit s1)
                 else
                   (let s2 = record_calls
                               [EbCreateApplicationVersion (app_name (cfg E)) v (v @ ''.zip'')] s1
                    in if \<not> eb_create_ok E v then Some (log_and_exit s2)
                       else case poll_status E v 0 s2 of
                              None \<Rightarrow> None
                            | Some (SysExit n, s3) \<Rightarrow> Some (SysExit n, s3)
                            | Some (Raise, s3) \<Rightarrow> Some (log_and_exit s3)
                            | Some (Return _, s3) \<Rightarrow>
                                (let s4 = record_calls
                                            [EbUpdateEnvironment (app_name (cfg E)) (env_id (cfg E)) v] s3
                                 in if \<not> eb_update_ok E v then Some (log_and_exit s4)
                                    else Some (Return v,
                                           clean_up dir_name
                                             (record_calls
                                                [LogInfo (''New app version ('' @ v @
                                                   '') is now deployed to EB'')] s4))))))"

text \<open>
  \<^verbatim>\<open>create_db\<close>: the connection is opened before the \<^verbatim>\<open>try\<close>; the handler covers the two
  statements; \<^verbatim>\<open>rollback\<close> runs inside the handler and \<^verbatim>\<open>close\<close> after the \<^verbatim>\<open>try\<close>, neither
  of them guarded.
\<close>

definition db_close :: "env \<Rightarrow> state \<Rightarrow> unit outcome \<times> state" where
  "db_close E s =
     (let s1 = record_calls [DbClose] s
      in if db_close_ok E then (Return (), s1) else (Raise, s1))"

definition db_handler :: "env \<Rightarrow> state \<Rightarrow> unit outcome \<times> state" where
  "db_handler E s =
     (let s1 = record_calls [LogError, DbRollback] s
      in if db_rollback_ok E then db_close E s1 else (Raise, s1))"

definition create_database_stmt :: "string \<Rightarrow> string" where
  "create_database_stmt db_name = ''CREATE DATABASE '' @ db_name"

definition grant_stmt :: "string \<Rightarrow> string \<Rightarrow> string" where
  \<open>grant_stmt db_name user = ''GRANT ALL PRIVILEGES ON '' @ db_name @ ''.* TO '' @ user @ ''@"%"''\<close>

definition create_db :: "env \<Rightarrow> string \<Rightarrow> state \<Rightarrow> unit outcome \<times> state" where
  "create_db E customer s =
     (let db_name = customer;
          s1 = record_calls
                 [DbConnect (rds_hostname (cfg E)) (rds_username (cfg E)) (rds_password (cfg E))] s
      in if \<not> db_connect_ok E then (Raise, s1)
         else
           (let s2 = record_calls
                       [LogInfo (''Creating '' @ db_name @ '' in '' @ rds_hostname (cfg E) @ ''...''),
                        DbExecute (create_database_stmt db_name)] s1
            in if \<not> db_execute_ok E (create_database_stmt db_name) then db_handler E s2
               else
                 (let s3 = record_calls [DbExecute (grant_stmt db_name (rds_username (cfg E)))] s2
                  in if \<not> db_execute_ok E (grant_stmt db_name (rds_username (cfg E)))
                     then db_handler E s3
                     else db_close E s3)))"

text \<open>\<^verbatim>\<open>create_dns_record\<close>: one \<^verbatim>\<open>CREATE\<close> of a \<^verbatim>\<open>CNAME\<close> with a TTL of 300 seconds.\<close>

definition create_dns_record :: "env \<Rightarrow> string \<Rightarrow> state \<Rightarrow> string outcome \<times> state" where
  "create_dns_record E customer_url s =
     (let s1 = record_calls [LogInfo (''Creating '' @ customer_url),
                 R53CreateRecord (hosted_zone_id (cfg E)) customer_url (eb_url (cfg E))] s
      in if \<not> r53_ok E customer_url then log_and_exit s1
         else (Return customer_url, record_calls [LogInfo (''Created '' @ customer_url)] s1))"

text \<open>
  \<^verbatim>\<open>main\<close>. The event is a dictionary of dictionaries; a missing key raises
  \<^verbatim>\<open>KeyError\<close> inside the \<^verbatim>\<open>try\<close>. The handler of \<^verbatim>\<open>main\<close> catches what \<^verbatim>\<open>create_db\<close> lets
  through; every other function ends the process itself.
\<close>

type_synonym event = "string \<Rightarrow> (string \<Rightarrow> (string \<Rightarrow> string option) option) option"

definition event_customer :: "event \<Rightarrow> string option" where
  "event_customer event =
     (case event ''params'' of
        None \<Rightarrow> None
      | Some params \<Rightarrow> (case params ''path'' of None \<Rightarrow> None | Some path \<Rightarrow> path ''customer''))"

record output_dict =
  CustomerName :: string
  DeploymentVersion :: string
  Status :: string
  RdsHostname :: string
  RdsDbName :: string
  RdsPort :: string
  Domain' :: string
  EnvId :: string
  EnvName :: string

definition make_output :: "env \<Rightarrow> string \<Rightarrow> string \<Rightarrow> string \<Rightarrow> output_dict" where
  "make_output E customer v customer_url =
     \<lparr>CustomerName = customer, DeploymentVersion = v, Status = ''deployed'',
      RdsHostname = rds_hostname (cfg E), RdsDbName = customer, RdsPort = rds_port (cfg E),
      Domain' = customer_url, EnvId = env_id (cfg E), EnvName = env_name (cfg E)\<rparr>"

definition main :: "env \<Rightarrow> event \<Rightarrow> state \<Rightarrow> (output_dict outcome \<times> state) option" where
  "main E event s =
     (case event_customer event of
        None \<Rightarrow> Some (log_and_exit s)
      | Some customer \<Rightarrow>
          (let customer_url = customer @ ''.'' @ domain (cfg E)
           in case check_version E s of
                (SysExit n, s1) \<Rightarrow> Some (SysExit n, s1)
              | (Raise, s1) \<Rightarrow> Some (log_and_exit s1)
              | (Return key, s1) \<Rightarrow>
           (case download_from_s3 E key s1 of
                (SysExit n, s2) \<Rightarrow> Some (SysExit n, s2)
              | (Raise, s2) \<Rightarrow> Some (log_and_exit s2)
              | (Return extraction_path, s2) \<Rightarrow>
           (case create_vhost E customer extraction_path s2 of
                (SysExit n, s3) \<Rightarrow> Some (SysExit n, s3)
              | (Raise, s3) \<Rightarrow> Some (log_and_exit s3)
              | (Return _, s3) \<Rightarrow>
           (case create_db E customer s3 of
                (SysExit n, s4) \<Rightarrow> Some (SysExit n, s4)
              | (Raise, s4) \<Rightarrow> Some (log_and_exit s4)
              | (Return _, s4) \<Rightarrow>
           (case deploy_app E extraction_path s4 of
                None \<Rightarrow> None
              | Some (SysExit n, s5) \<Rightarrow> Some (SysExit n, s5)
              | Some (Raise, s5) \<Rightarrow> Some (log_and_exit s5)
              | Some (Return v, s5) \<Rightarrow>
           (case create_dns_record E customer_url s5 of
                (SysExit n, s6) \<Rightarrow> Some (SysExit n, s6)
              | (Raise, s6) \<Rightarrow> Some (log_and_exit s6)
              | (Return _, s6) \<Rightarrow>
                  Some (Return (make_output E customer v customer_url), s6))))))))"


section \<open>A sample deployment\<close>

text \<open>
  A configuration, an environment in which every service answers as it should, a
  scratch directory that holds nothing yet, and a request for the customer \<^verbatim>\<open>acme\<close>.
  The bucket holds three builds, the second of which is live; the new version is
  reported \<^verbatim>\<open>PROCESSED\<close> at the third status poll.
\<close>

definition sample_cfg :: config where
  "sample_cfg =
     \<lparr>domain = ''example.com'', app_name = ''shop'', env_id = ''e-abc123'', env_name = ''shop-prod'',
      bucket = ''shop-builds'', hosted_zone_id = ''Z1'', eb_url = ''shop-prod.elasticbeanstalk.com'',
      rds_hostname = ''db.internal'', rds_username = ''admin'', rds_password = ''secret'',
      rds_port = ''3306''\<rparr>"

definition sample_env :: env where
  "sample_env =
     \<lparr>cfg = sample_cfg,
      now = \<lparr>year = 2024, month = 1, day = 1, hour = 0, minute = 0, second = 0\<rparr>,
      utcnow = \<lparr>year = 2024, month = 1, day = 1, hour = 0, minute = 0, second = 0\<rparr>,
      eb_health = Some ''v2'',
      s3_keys = Some [''v1.zip'', ''v2.zip'', ''v3.zip''],
      re_other = (\<lambda>pat line. None),
      s3_get = (\<lambda>key. Some ''PK''),
      unzip = (\<lambda>bytes. Some ([''.ebextensions'', ''.ebextensions/vhosts''],
                              [(''index.php'', ''<?php'')])),
      make_zip = (\<lambda>dir_name. Some ''PK''),
      s3_put_ok = (\<lambda>key. True),
      eb_create_ok = (\<lambda>v. True),
      version_status = (\<lambda>v i. Some (if i < 2 then ''PROCESSING'' else ''PROCESSED'')),
      eb_update_ok = (\<lambda>v. True),
      db_connect_ok = True,
      db_execute_ok = (\<lambda>stmt. True),
      db_rollback_ok = True,
      db_close_ok = True,
      r53_ok = (\<lambda>name. True)\<rparr>"

definition fresh_state :: state where
  "fresh_state = \<lparr>files = (\<lambda>path. None), dirs = {''/tmp''}, trace = []\<rparr>"

definition request_for :: "string \<Rightarrow> event" where
  "request_for customer = [''params'' \<mapsto> [''path'' \<mapsto> [''customer'' \<mapsto> customer]]]"


definition stuck_env :: env where
  "stuck_env = sample_env\<lparr>version_status := (\<lambda>v i. Some ''PROCESSING'')\<rparr>"

definition unpacked_state :: state where
  "unpacked_state = fresh_state\<lparr>dirs := {''/tmp'', ''/tmp/v2''}\<rparr>"

text \<open>Variations of the sample: an archive without the directory \<^verbatim>\<open>.ebextensions/vhosts\<close>,
  a database server that cannot be reached, one that already holds a database \<^verbatim>\<open>acme\<close>,
  and one that rejects every statement.\<close>

definition no_vhosts_env :: env where
  "no_vhosts_env = sample_env\<lparr>unzip := (\<lambda>bytes. Some ([], [(''index.php'', ''<?php'')]))\<rparr>"

definition db_down_env :: env where
  "db_down_env = sample_env\<lparr>db_connect_ok := False\<rparr>"

definition db_exists_env :: env where
  "db_exists_env = sample_env\<lparr>db_execute_ok := (\<lambda>stmt. stmt \<noteq> ''CREATE DATABASE acme'')\<rparr>"

definition rejecting_db_env :: env where
  "rejecting_db_env = sample_env\<lparr>db_execute_ok := (\<lambda>stmt. False)\<rparr>"

text \<open>
  The characters the specification allows in a tenant identifier (letters, digits and
  the underscore). The script has no counterpart of this predicate; it is used only to
  say that an identifier is malformed.
\<close>

definition identifier_char :: "char \<Rightarrow> bool" where
  "identifier_char c =
     (c \<in> set ''abcdefghijklmnopqrstuvwxyzABCDEFGHIJKLMNOPQRSTUVWXYZ0123456789_'')"


text \<open>
  Further variations: an index file left behind by an earlier run, in front of a bucket
  whose listing has changed since; a bucket with two builds of the live version; a
  bucket with a manifest next to the archive; a
  version label with a dot in it; a bucket with a backup copy of the archive; a label
  and a key that begin with a blank; a live version of which the bucket holds no build;
  a wall clock eight hours ahead of UTC; another domain.
\<close>

definition stale_state :: state where
  "stale_state = fresh_state\<lparr>files := (files fresh_state)(object_list \<mapsto> index_text [''v2.zip''])\<rparr>"

definition moved_on_env :: env where
  "moved_on_env = sample_env\<lparr>s3_keys := Some [''v3.zip'']\<rparr>"

definition final_build_env :: env where
  "final_build_env = sample_env\<lparr>s3_keys := Some [''v2-final.zip'', ''v2.zip'']\<rparr>"

definition manifest_env :: env where
  "manifest_env = sample_env\<lparr>s3_keys := Some [''v2-zip-manifest.json'', ''v2.zip'']\<rparr>"

definition dotted_env :: env where
  "dotted_env = sample_env\<lparr>eb_health := Some ''v1.2'', s3_keys := Some [''v1-2.zip'', ''v1.2.zip'']\<rparr>"

definition backup_env :: env where
  "backup_env = sample_env\<lparr>s3_keys := Some [''v2.zip.bak'', ''v2.zip'']\<rparr>"

definition padded_env :: env where
  "padded_env = sample_env\<lparr>eb_health := Some '' v2'', s3_keys := Some ['' v2.zip'']\<rparr>"

definition unmatched_env :: env where
  "unmatched_env = sample_env\<lparr>eb_health := Some ''v9''\<rparr>"

definition manila_env :: env where
  "manila_env = sample_env\<lparr>now := \<lparr>year = 2024, month = 1, day = 1, hour = 8, minute = 0, second = 0\<rparr>\<rparr>"

definition other_domain_env :: env where
  "other_domain_env = sample_env\<lparr>cfg := sample_cfg\<lparr>domain := ''example.org''\<rparr>\<rparr>"

text \<open>A string without a line terminator (\<^verbatim>\<open>\n\<close> or \<^verbatim>\<open>\r\<close>).\<close>

definition no_linebreak :: "string \<Rightarrow> bool" where
  "no_linebreak k = list_all (\<lambda>c. c \<noteq> CHR 0x0A \<and> c \<noteq> CHR 0x0D) k"


section \<open>Basic facts about the state\<close>

lemma files_record_calls [simp]: "files (record_calls cs s) = files s"
  by (simp add: record_calls_def)

lemma dirs_record_calls [simp]: "dirs (record_calls cs s) = dirs s"
  by (simp add: record_calls_def)

lemma trace_record_calls [simp]: "trace (record_calls cs s) = trace s @ cs"
  by (simp add: record_calls_def)

lemma record_calls_twice: "record_calls ds (record_calls cs s) = record_calls (cs @ ds) s"
  by (simp add: record_calls_def)

lemma poll_status_returns:
  assumes "\<forall>k<n. \<exists>st. version_status E v (i + k) = Some st \<and> st \<noteq> ''PROCESSED''"
    and "version_status E v (i + n) = Some ''PROCESSED''"
  shows "poll_status E v i s =
    Some (Return (), record_calls (replicate (Suc n) (EbDescribeApplicationVersions (app_name (cfg E)) v)) s)"
  using assms
proof (induction n arbitrary: i s)
  case 0
  then show ?case by (simp add: poll_status.simps [of E v i s])
next
  case (Suc n)
  from Suc.prems(1) obtain st where st: "version_status E v i = Some st" "st \<noteq> ''PROCESSED''"
    by force
  have later: "\<forall>k<n. \<exists>st. version_status E v (Suc i + k) = Some st \<and> st \<noteq> ''PROCESSED''"
  proof (intro allI impI)
    fix k assume "k < n"
    then have "Suc k < Suc n" by simp
    with Suc.prems(1) have "\<exists>st. version_status E v (i + Suc k) = Some st \<and> st \<noteq> ''PROCESSED''"
      by blast
    then show "\<exists>st. version_status E v (Suc i + k) = Some st \<and> st \<noteq> ''PROCESSED''" by simp
  qed
  from Suc.prems(2) have last: "version_status E v (Suc i + n) = Some ''PROCESSED''" by simp
  have "poll_status E v i s =
      poll_status E v (Suc i) (record_calls [EbDescribeApplicationVersions (app_name (cfg E)) v] s)"
    using st by (simp add: poll_status.simps [of E v i s] eq_commute [of "''PROCESSED''"])
  also have "\<dots> = Some (Return (), record_calls (replicate (Suc n) (EbDescribeApplicationVersions (app_name (cfg E)) v))
       (record_calls [EbDescribeApplicationVersions (app_name (cfg E)) v] s))"
    by (rule Suc.IH [OF later last])
  finally show ?case by (simp add: record_calls_twice)
qed

lemma poll_status_exit:
  assumes ret: "poll_status E v i s = Some r"
  shows "\<exists>n. (\<forall>k<n. \<exists>st. version_status E v (i + k) = Some st \<and> st \<noteq> ''PROCESSED'') \<and>
     (case version_status E v (i + n) of
        None \<Rightarrow> fst r = Raise
      | Some st \<Rightarrow> st = ''PROCESSED'' \<and> fst r = Return ()) \<and>
     files (snd r) = files s \<and> dirs (snd r) = dirs s \<and> prefix (trace s) (trace (snd r))"
proof (rule poll_status.raw_induct [where P = "\<lambda>E v i s r.
     \<exists>n. (\<forall>k<n. \<exists>st. version_status E v (i + k) = Some st \<and> st \<noteq> ''PROCESSED'') \<and>
     (case version_status E v (i + n) of
        None \<Rightarrow> fst r = Raise
      | Some st \<Rightarrow> st = ''PROCESSED'' \<and> fst r = Return ()) \<and>
     files (snd r) = files s \<and> dirs (snd r) = dirs s \<and> prefix (trace s) (trace (snd r))", OF _ ret])
  fix f E v i s r
  assume IH: "\<And>E v i s r. f E v i s = Some r \<Longrightarrow>
     \<exists>n. (\<forall>k<n. \<exists>st. version_status E v (i + k) = Some st \<and> st \<noteq> ''PROCESSED'') \<and>
     (case version_status E v (i + n) of
        None \<Rightarrow> fst r = Raise
      | Some st \<Rightarrow> st = ''PROCESSED'' \<and> fst r = Return ()) \<and>
     files (snd r) = files s \<and> dirs (snd r) = dirs s \<and> prefix (trace s) (trace (snd r))"
    and eq: "(let s1 = record_calls [EbDescribeApplicationVersions (app_name (cfg E)) v] s
      in case version_status E v i of
           None \<Rightarrow> Some (Raise, s1)
         | Some app_status \<Rightarrow>
             if ''PROCESSED'' = app_status then Some (Return (), s1)
             else f E v (Suc i) s1) = Some r"
  let ?s1 = "record_calls [EbDescribeApplicationVersions (app_name (cfg E)) v] s"
  show "\<exists>n. (\<forall>k<n. \<exists>st. version_status E v (i + k) = Some st \<and> st \<noteq> ''PROCESSED'') \<and>
     (case version_status E v (i + n) of
        None \<Rightarrow> fst r = Raise
      | Some st \<Rightarrow> st = ''PROCESSED'' \<and> fst r = Return ()) \<and>
     files (snd r) = files s \<and> dirs (snd r) = dirs s \<and> prefix (trace s) (trace (snd r))"
  proof (cases "version_status E v i")
    case None
    with eq have "r = (Raise, ?s1)" by (simp add: Let_def)
    with None show ?thesis by (intro exI [of _ 0]) simp
  next
    case (Some st)
    show ?thesis
    proof (cases "st = ''PROCESSED''")
      case True
      with eq Some have "r = (Return (), ?s1)" by (simp add: Let_def)
      with Some True show ?thesis by (intro exI [of _ 0]) simp
    next
      case False
      with eq Some have "f E v (Suc i) ?s1 = Some r" by (auto simp: Let_def)
      from IH [OF this] obtain n where
        before: "\<forall>k<n. \<exists>st. version_status E v (Suc i + k) = Some st \<and> st \<noteq> ''PROCESSED''"
        and at: "case version_status E v (Suc i + n) of
            None \<Rightarrow> fst r = Raise
          | Some st \<Rightarrow> st = ''PROCESSED'' \<and> fst r = Return ()"
        and frame: "files (snd r) = files s" "dirs (snd r) = dirs s"
        and grows: "prefix (trace ?s1) (trace (snd r))"
        by auto
      have "prefix (trace s) (trace ?s1)" by simp
      with grows have frame': "prefix (trace s) (trace (snd r))"
        by (rule prefix_order.trans [rotated])
      have "\<forall>k<Suc n. \<exists>st. version_status E v (i + k) = Some st \<and> st \<noteq> ''PROCESSED''"
      proof (intro allI impI)
        fix k assume k: "k < Suc n"
        show "\<exists>st. version_status E v (i + k) = Some st \<and> st \<noteq> ''PROCESSED''"
        proof (cases k)
          case 0
          with Some False show ?thesis by simp
        next
          case (Suc j)
          with k have "j < n" by simp
          with before have "\<exists>st. version_status E v (Suc i + j) = Some st \<and> st \<noteq> ''PROCESSED''"
            by blast
          with Suc show ?thesis by simp
        qed
      qed
      moreover from at have "case version_status E v (i + Suc n) of
            None \<Rightarrow> fst r = Raise
          | Some st \<Rightarrow> st = ''PROCESSED'' \<and> fst r = Return ()"
        by simp
      ultimately show ?thesis using frame frame' by blast
    qed
  qed
qed

lemma poll_status_never:
  assumes "\<forall>n. \<exists>st. version_status E v (i + n) = Some st \<and> st \<noteq> ''PROCESSED''"
  shows "poll_status E v i s = None"
proof (rule ccontr)
  assume "poll_status E v i s \<noteq> None"
  then obtain r where "poll_status E v i s = Some r" by auto
  from poll_status_exit [OF this] obtain n where
    "case version_status E v (i + n) of
        None \<Rightarrow> fst r = Raise
      | Some st \<Rightarrow> st = ''PROCESSED'' \<and> fst r = Return ()"
    by blast
  moreover from assms obtain st where "version_status E v (i + n) = Some st" "st \<noteq> ''PROCESSED''"
    by blast
  ultimately show False by simp
qed

section \<open>What each stage leaves behind\<close>

lemma fst_log_and_exit [simp]: "fst (log_and_exit s) = SysExit 1"
  by (simp add: log_and_exit_def)

lemma log_and_exit_neq_Return [simp]: "log_and_exit s \<noteq> (Return x, s')"
  by (simp add: log_and_exit_def)

lemma snd_log_and_exit [simp]: "snd (log_and_exit s) = record_calls [LogError] s"
  by (simp add: log_and_exit_def)

lemma main_ReturnE:
  assumes "main E event s = Some (Return out, s')"
  obtains customer key s1 extraction_path s2 s3 s4 v s5 where
    "event_customer event = Some customer"
    "check_version E s = (Return key, s1)"
    "download_from_s3 E key s1 = (Return extraction_path, s2)"
    "create_vhost E customer extraction_path s2 = (Return (), s3)"
    "create_db E customer s3 = (Return (), s4)"
    "deploy_app E extraction_path s4 = Some (Return v, s5)"
    "fst (create_dns_record E (customer @ ''.'' @ domain (cfg E)) s5) = Return (customer @ ''.'' @ domain (cfg E))"
    "snd (create_dns_record E (customer @ ''.'' @ domain (cfg E)) s5) = s'"
    "out = make_output E customer v (customer @ ''.'' @ domain (cfg E))"
  using assms
  by (auto simp: main_def Let_def create_dns_record_def split: option.splits prod.splits outcome.splits if_splits)

lemma main_ReturnI:
  assumes "event_customer event = Some customer"
    "check_version E s = (Return key, s1)"
    "download_from_s3 E key s1 = (Return extraction_path, s2)"
    "create_vhost E customer extraction_path s2 = (Return u, s3)"
    "create_db E customer s3 = (Return u', s4)"
    "deploy_app E extraction_path s4 = Some (Return v, s5)"
    "create_dns_record E (customer @ ''.'' @ domain (cfg E)) s5 = (Return url, s6)"
  shows "main E event s = Some (Return (make_output E customer v (customer @ ''.'' @ domain (cfg E))), s6)"
  using assms by (simp add: main_def Let_def)


lemma fold_update_defined:
  "m p \<noteq> None \<Longrightarrow> fold (\<lambda>(name, content) m. m(g name \<mapsto> content)) xs m p \<noteq> None"
  by (induction xs arbitrary: m) (auto split: prod.splits)

lemma files_extract_into_defined:
  assumes "files s p \<noteq> None"
  shows "files (extract_into d entries s) p \<noteq> None"
proof -
  from assms
  have "fold (\<lambda>(name, content) m. m(d @ ''/'' @ name \<mapsto> content)) (snd entries) (files s) p \<noteq> None"
    by (rule fold_update_defined)
  then show ?thesis by (simp add: extract_into_def)
qed

lemma dirs_extract_into: "dirs s \<subseteq> dirs (extract_into d entries s)"
  by (auto simp: extract_into_def)

lemma trace_extract_into [simp]: "trace (extract_into d entries s) = trace s"
  by (simp add: extract_into_def)

lemma check_version_Return:
  assumes "check_version E s = (Return key, s')"
  shows "files s' object_list \<noteq> None \<and> dirs s' = dirs s \<and> prefix (trace s) (trace s')"
  using assms
  by (auto simp: check_version_def Let_def split: option.splits if_splits)

lemma download_from_s3_Return:
  assumes "download_from_s3 E key s = (Return extraction_path, s')"
  shows "extraction_path = splitext_root (dst_path @ ''/'' @ py_str key) \<and>
    extraction_path \<notin> dirs s \<and> extraction_path \<in> dirs s' \<and> dirs s \<subseteq> dirs s' \<and>
    (\<forall>p. files s p \<noteq> None \<longrightarrow> files s' p \<noteq> None) \<and> prefix (trace s) (trace s')"
proof -
  from assms obtain k bytes entries where k: "key = Some k" "s3_get E k = Some bytes"
    "unzip E bytes = Some entries"
    by (auto simp: download_from_s3_def Let_def split: option.splits if_splits)
  let ?file_path = "dst_path @ ''/'' @ k"
  let ?xp = "splitext_root ?file_path"
  let ?s2 = "record_calls [LogInfo (''Downloading app version to '' @ ?xp),
     S3DownloadFile (bucket (cfg E)) k ?file_path] s"
  let ?s3 = "?s2\<lparr>files := (files ?s2)(?file_path \<mapsto> bytes)\<rparr>"
  let ?s4 = "?s3\<lparr>dirs := insert ?xp (dirs ?s3)\<rparr>"
  from assms k have ok: "can_open_for_writing ?s2 ?file_path" "\<not> path_exists ?s3 ?xp"
    by (auto simp: download_from_s3_def Let_def py_str_def record_calls_def split: if_splits)
  from assms k ok have res: "extraction_path = ?xp"
    "s' = record_calls [LogInfo ''App downloaded''] (extract_into ?xp entries ?s4)"
    by (auto simp: download_from_s3_def Let_def py_str_def record_calls_def split: if_splits)
  have "?xp \<in> dirs ?s4" by simp
  with dirs_extract_into [of ?s4 ?xp entries] have in_dirs: "extraction_path \<in> dirs s'"
    unfolding res by auto
  have "dirs s \<subseteq> dirs ?s4" by auto
  with dirs_extract_into [of ?s4 ?xp entries] have sub: "dirs s \<subseteq> dirs s'"
    unfolding res by auto
  have defined: "\<forall>p. files s p \<noteq> None \<longrightarrow> files s' p \<noteq> None"
  proof (intro allI impI)
    fix p assume "files s p \<noteq> None"
    then have "files ?s4 p \<noteq> None" by simp
    then show "files s' p \<noteq> None"
      unfolding res by (simp add: files_extract_into_defined)
  qed
  from ok(2) have fresh: "extraction_path \<notin> dirs s"
    unfolding res by (simp add: path_exists_def)
  have "prefix (trace s) (trace s')"
    unfolding res by (simp add: record_calls_def)
  with res(1) k(1) in_dirs sub defined fresh show ?thesis
    by (simp add: py_str_def)
qed

lemma create_vhost_Return:
  assumes "create_vhost E customer extraction_path s = (Return u, s')"
  shows "dirs s' = dirs s \<and> (\<forall>p. files s p \<noteq> None \<longrightarrow> files s' p \<noteq> None) \<and>
    files s' (vhost_conf_path extraction_path customer) = Some (vhost_template (cfg E) customer) \<and>
    prefix (trace s) (trace s')"
  using assms
  by (auto simp: create_vhost_def Let_def split: if_splits)

lemma db_close_frame:
  "files (snd (db_close E s)) = files s \<and> dirs (snd (db_close E s)) = dirs s \<and>
   prefix (trace s) (trace (snd (db_close E s)))"
  by (simp add: db_close_def Let_def)

lemma db_handler_frame:
  "files (snd (db_handler E s)) = files s \<and> dirs (snd (db_handler E s)) = dirs s \<and>
   prefix (trace s) (trace (snd (db_handler E s)))"
  by (simp add: db_handler_def db_close_def Let_def)

lemma create_db_frame:
  "files (snd (create_db E customer s)) = files s \<and> dirs (snd (create_db E customer s)) = dirs s \<and>
   prefix (trace s) (trace (snd (create_db E customer s)))"
  by (simp add: create_db_def db_handler_def db_close_def Let_def)

lemma create_dns_record_frame:
  "files (snd (create_dns_record E url s)) = files s \<and> dirs (snd (create_dns_record E url s)) = dirs s \<and>
   prefix (trace s) (trace (snd (create_dns_record E url s)))"
  by (simp add: create_dns_record_def Let_def)

lemma clean_up_removes:
  assumes "files s object_list \<noteq> None"
  shows "files (clean_up d s) object_list = None \<and> d \<notin> dirs (clean_up d s) \<and>
    trace (clean_up d s) = trace s"
  using assms by (auto simp: clean_up_def rmtree_def Let_def split: if_splits)

lemma deploy_app_Return:
  assumes ret: "deploy_app E d s = Some (Return v, s')"
  shows "v = new_app_version E \<and> d \<in> dirs s \<and> prefix (trace s) (trace s') \<and>
    (files s object_list \<noteq> None \<longrightarrow> files s' object_list = None \<and> d \<notin> dirs s')"
proof -
  let ?v = "new_app_version E"
  let ?out = "dst_path @ ''/'' @ ?v"
  from ret have d: "d \<in> dirs s"
    by (auto simp: deploy_app_def Let_def split: if_splits)
  from ret d obtain bytes where bytes: "make_zip E d = Some bytes"
    by (auto simp: deploy_app_def Let_def split: option.splits)
  define s1 where "s1 = record_calls [LogInfo (''Deploying '' @ ?v @ '' to Elastic Beanstalk''),
      S3UploadFile (bucket (cfg E)) (?out @ ''.zip'') (?v @ ''.zip'')]
      (s\<lparr>files := (files s)(?out @ ''.zip'' \<mapsto> bytes)\<rparr>)"
  define s2 where "s2 = record_calls [EbCreateApplicationVersion (app_name (cfg E)) ?v (?v @ ''.zip'')] s1"
  from ret d bytes have ok: "s3_put_ok E (?v @ ''.zip'')" "eb_create_ok E ?v"
    by (auto simp: deploy_app_def Let_def split: if_splits)
  from ret d bytes ok obtain s3 where poll: "poll_status E ?v 0 s2 = Some (Return (), s3)"
    by (auto simp: deploy_app_def Let_def s1_def s2_def
        split: option.splits prod.splits outcome.splits if_splits)
  define s4 where "s4 = record_calls [EbUpdateEnvironment (app_name (cfg E)) (env_id (cfg E)) ?v] s3"
  define s5 where "s5 = record_calls [LogInfo (''New app version ('' @ ?v @ '') is now deployed to EB'')] s4"
  from ret d bytes ok poll have res: "v = ?v" "s' = clean_up d s5"
    by (auto simp: deploy_app_def Let_def s1_def s2_def s4_def s5_def split: if_splits)
  from poll_status_exit [OF poll]
  have frame: "files s3 = files s2" "dirs s3 = dirs s2" "prefix (trace s2) (trace s3)"
    by auto
  have "prefix (trace s) (trace s2)"
    by (simp add: s2_def s1_def)
  with frame(3) have "prefix (trace s) (trace s3)"
    by (rule prefix_order.trans [rotated])
  moreover have "prefix (trace s3) (trace s5)"
    by (simp add: s5_def s4_def)
  ultimately have "prefix (trace s) (trace s5)"
    by (rule prefix_order.trans)
  moreover have "trace s' = trace s5"
    by (simp add: res clean_up_def rmtree_def Let_def split: option.splits)
  ultimately have grows: "prefix (trace s) (trace s')"
    by simp
  have cleaned: "files s' object_list = None \<and> d \<notin> dirs s'" if "files s object_list \<noteq> None"
  proof -
    from that have "files s5 object_list \<noteq> None"
      by (simp add: s5_def s4_def frame s2_def s1_def)
    from clean_up_removes [OF this, of d] show ?thesis
      by (simp add: res)
  qed
  from res(1) d grows cleaned show ?thesis by blast
qed

lemma deploy_app_succeeds:
  assumes "d \<in> dirs s" "make_zip E d \<noteq> None"
    "s3_put_ok E (new_app_version E @ ''.zip'')" "eb_create_ok E (new_app_version E)"
    "\<forall>k<n. \<exists>st. version_status E (new_app_version E) k = Some st \<and> st \<noteq> ''PROCESSED''"
    "version_status E (new_app_version E) n = Some ''PROCESSED''"
    "eb_update_ok E (new_app_version E)"
  shows "\<exists>s'. deploy_app E d s = Some (Return (new_app_version E), s')"
proof -
  from assms(2) obtain bytes where bytes: "make_zip E d = Some bytes" by auto
  have before: "\<forall>k<n. \<exists>st. version_status E (new_app_version E) (0 + k) = Some st \<and> st \<noteq> ''PROCESSED''"
    using assms(5) by simp
  have at: "version_status E (new_app_version E) (0 + n) = Some ''PROCESSED''"
    using assms(6) by simp
  note poll = poll_status_returns [OF before at]
  from assms(1,3,4,7) bytes show ?thesis
    by (simp add: deploy_app_def Let_def poll)
qed

lemma create_db_returns:
  assumes "db_connect_ok E" "db_rollback_ok E" "db_close_ok E"
  shows "fst (create_db E customer s) = Return () \<and>
    trace (snd (create_db E customer s)) =
      trace s @ [DbConnect (rds_hostname (cfg E)) (rds_username (cfg E)) (rds_password (cfg E)),
                 LogInfo (''Creating '' @ customer @ '' in '' @ rds_hostname (cfg E) @ ''...''),
                 DbExecute (create_database_stmt customer)] @
      (if \<not> db_execute_ok E (create_database_stmt customer) then [LogError, DbRollback, DbClose]
       else if \<not> db_execute_ok E (grant_stmt customer (rds_username (cfg E)))
         then [DbExecute (grant_stmt customer (rds_username (cfg E))), LogError, DbRollback, DbClose]
         else [DbExecute (grant_stmt customer (rds_username (cfg E))), DbClose])"
  using assms by (simp add: create_db_def db_handler_def db_close_def Let_def)

lemma create_dns_record_returns:
  assumes "r53_ok E url"
  shows "fst (create_dns_record E url s) = Return url \<and>
    R53CreateRecord (hosted_zone_id (cfg E)) url (eb_url (cfg E)) \<in> set (trace (snd (create_dns_record E url s)))"
  using assms by (simp add: create_dns_record_def Let_def)

lemma main_succeeds:
  assumes customer: "event_customer event = Some customer"
    and cv: "check_version E s = (Return key, s1)"
    and dl: "download_from_s3 E key s1 = (Return extraction_path, s2)"
    and vh: "create_vhost E customer extraction_path s2 = (Return (), s3)"
    and db: "db_connect_ok E" "db_rollback_ok E" "db_close_ok E"
    and zip: "make_zip E extraction_path \<noteq> None"
    and put: "s3_put_ok E (new_app_version E @ ''.zip'')"
    and create: "eb_create_ok E (new_app_version E)"
    and pending: "\<forall>k<n. \<exists>st. version_status E (new_app_version E) k = Some st \<and> st \<noteq> ''PROCESSED''"
    and processed: "version_status E (new_app_version E) n = Some ''PROCESSED''"
    and update: "eb_update_ok E (new_app_version E)"
    and dns: "r53_ok E (customer @ ''.'' @ domain (cfg E))"
  shows "\<exists>s'. main E event s =
      Some (Return (make_output E customer (new_app_version E) (customer @ ''.'' @ domain (cfg E))), s') \<and>
    DbExecute (create_database_stmt customer) \<in> set (trace s') \<and>
    R53CreateRecord (hosted_zone_id (cfg E)) (customer @ ''.'' @ domain (cfg E)) (eb_url (cfg E))
      \<in> set (trace s')"
proof -
  let ?url = "customer @ ''.'' @ domain (cfg E)"
  define s4 where "s4 = snd (create_db E customer s3)"
  from create_db_returns [OF db, of customer s3]
  have dbr: "create_db E customer s3 = (Return (), s4)"
    and dbt: "DbExecute (create_database_stmt customer) \<in> set (trace s4)"
    by (simp_all add: s4_def prod_eq_iff)
  from download_from_s3_Return [OF dl] have "extraction_path \<in> dirs s2" by blast
  with create_vhost_Return [OF vh] have "extraction_path \<in> dirs s3" by blast
  with create_db_frame [of E customer s3] have "extraction_path \<in> dirs s4"
    by (simp add: s4_def)
  from deploy_app_succeeds [OF this zip put create pending processed update]
  obtain s5 where dp: "deploy_app E extraction_path s4 = Some (Return (new_app_version E), s5)"
    by blast
  define s6 where "s6 = snd (create_dns_record E ?url s5)"
  from create_dns_record_returns [OF dns, of s5]
  have dnsr: "create_dns_record E ?url s5 = (Return ?url, s6)"
    and dnst: "R53CreateRecord (hosted_zone_id (cfg E)) ?url (eb_url (cfg E)) \<in> set (trace s6)"
    by (simp_all add: s6_def prod_eq_iff)
  from deploy_app_Return [OF dp] have "prefix (trace s4) (trace s5)" by blast
  moreover from create_dns_record_frame [of E ?url s5] have "prefix (trace s5) (trace s6)"
    by (simp add: s6_def)
  ultimately have "prefix (trace s4) (trace s6)"
    by (rule prefix_order.trans)
  with dbt have "DbExecute (create_database_stmt customer) \<in> set (trace s6)"
    by (auto dest: set_mono_prefix)
  moreover note main_ReturnI [OF customer cv dl vh dbr dp dnsr] dnst
  ultimately show ?thesis by blast
qed

lemma download_from_s3_keeps:
  "dirs s \<subseteq> dirs (snd (download_from_s3 E key s)) \<and>
   (\<forall>p. files s p \<noteq> None \<longrightarrow> files (snd (download_from_s3 E key s)) p \<noteq> None)"
proof (cases "download_from_s3 E key s")
  case (Pair r s')
  show ?thesis
  proof (cases r)
    case (Return extraction_path)
    with Pair download_from_s3_Return [of E key s extraction_path s'] show ?thesis
      by simp
  next
    case (SysExit n)
    with Pair show ?thesis
      by (auto simp: download_from_s3_def Let_def log_and_exit_def split: option.splits if_splits)
  next
    case Raise
    with Pair show ?thesis
      by (auto simp: download_from_s3_def Let_def log_and_exit_def split: option.splits if_splits)
  qed
qed

lemma create_vhost_keeps:
  assumes "files s p \<noteq> None"
  shows "files (snd (create_vhost E customer d s)) p \<noteq> None"
  using assms by (auto simp: create_vhost_def Let_def)

lemma create_vhost_dirs: "dirs (snd (create_vhost E customer d s)) = dirs s"
  by (auto simp: create_vhost_def Let_def)

lemma deploy_app_fails_keeps:
  assumes ret: "deploy_app E d s = Some (r, s')" and failed: "\<forall>v. r \<noteq> Return v"
  shows "dirs s' = dirs s \<and> (\<forall>p. files s p \<noteq> None \<longrightarrow> files s' p \<noteq> None)"
proof (cases "d \<in> dirs s \<and> make_zip E d \<noteq> None \<and> s3_put_ok E (new_app_version E @ ''.zip'') \<and>
    eb_create_ok E (new_app_version E)")
  case False
  with ret show ?thesis
    by (auto simp: deploy_app_def Let_def log_and_exit_def split: option.splits if_splits)
next
  case True
  then obtain bytes where bytes: "make_zip E d = Some bytes" by auto
  let ?v = "new_app_version E"
  let ?out = "dst_path @ ''/'' @ ?v"
  define s2 where "s2 = record_calls [EbCreateApplicationVersion (app_name (cfg E)) ?v (?v @ ''.zip'')]
    (record_calls [LogInfo (''Deploying '' @ ?v @ '' to Elastic Beanstalk''),
      S3UploadFile (bucket (cfg E)) (?out @ ''.zip'') (?v @ ''.zip'')]
      (s\<lparr>files := (files s)(?out @ ''.zip'' \<mapsto> bytes)\<rparr>))"
  have s2: "dirs s2 = dirs s" "\<forall>p. files s p \<noteq> None \<longrightarrow> files s2 p \<noteq> None"
    by (simp_all add: s2_def)
  from ret True bytes obtain r3 s3 where poll: "poll_status E ?v 0 s2 = Some (r3, s3)"
    by (auto simp: deploy_app_def Let_def s2_def split: option.splits)
  from poll_status_exit [OF poll] have s3: "files s3 = files s2" "dirs s3 = dirs s2"
    by auto
  from ret True bytes poll failed
  have "s' = s3 \<or> s' = record_calls [LogError] s3 \<or>
    s' = record_calls [LogError] (record_calls [EbUpdateEnvironment (app_name (cfg E)) (env_id (cfg E)) ?v] s3)"
    by (auto simp: deploy_app_def Let_def s2_def log_and_exit_def split: outcome.splits if_splits)
  then have "files s' = files s3" "dirs s' = dirs s3"
    by auto
  with s2 s3 show ?thesis by simp
qed


lemma index_file_at_the_end:
  assumes run: "main E event s = Some (r, s')"
    and customer: "event_customer event = Some customer"
    and cv: "check_version E s = (Return key, s1)"
  shows "(files s' object_list = None) =
    (\<exists>extraction_path s2 s3 s4 v s5.
       download_from_s3 E key s1 = (Return extraction_path, s2) \<and>
       create_vhost E customer extraction_path s2 = (Return (), s3) \<and>
       create_db E customer s3 = (Return (), s4) \<and>
       deploy_app E extraction_path s4 = Some (Return v, s5))"
proof -
  let ?url = "customer @ ''.'' @ domain (cfg E)"
  from check_version_Return [OF cv] have i1: "files s1 object_list \<noteq> None" by blast
  obtain r2 s2 where dl: "download_from_s3 E key s1 = (r2, s2)" by (cases "download_from_s3 E key s1")
  from download_from_s3_keeps [of s1 E key] i1 dl have i2: "files s2 object_list \<noteq> None" by simp
  show ?thesis
  proof (cases r2)
    case (SysExit n)
    with run customer cv dl i2 show ?thesis by (auto simp: main_def)
  next
    case Raise
    with run customer cv dl i2 show ?thesis by (auto simp: main_def log_and_exit_def)
  next
    case (Return extraction_path)
    note dl = dl [unfolded Return]
    obtain r3 s3 where vh: "create_vhost E customer extraction_path s2 = (r3, s3)"
      by (cases "create_vhost E customer extraction_path s2")
    from create_vhost_keeps [OF i2, of E customer extraction_path] vh
    have i3: "files s3 object_list \<noteq> None" by simp
    show ?thesis
    proof (cases r3)
      case (SysExit n)
      with run customer cv dl vh i3 show ?thesis by (auto simp: main_def)
    next
      case Raise
      with run customer cv dl vh i3 show ?thesis by (auto simp: main_def log_and_exit_def)
    next
      case (Return u)
      note vh = vh [unfolded Return]
      obtain r4 s4 where db: "create_db E customer s3 = (r4, s4)"
        by (cases "create_db E customer s3")
      from create_db_frame [of E customer s3] db i3
      have i4: "files s4 object_list \<noteq> None" by simp
      show ?thesis
      proof (cases r4)
        case (SysExit n)
        with run customer cv dl vh db i4 show ?thesis by (auto simp: main_def)
      next
        case Raise
        with run customer cv dl vh db i4 show ?thesis by (auto simp: main_def log_and_exit_def)
      next
        case (Return u')
        note db = db [unfolded Return]
        from run customer cv dl vh db obtain r5 s5 where
          dp: "deploy_app E extraction_path s4 = Some (r5, s5)"
          by (cases "deploy_app E extraction_path s4") (auto simp: main_def)
        show ?thesis
        proof (cases "\<exists>v. r5 = Return v")
          case True
          then obtain v where v: "r5 = Return v" ..
          from deploy_app_Return [OF dp [unfolded v]] i4
          have "files s5 object_list = None" by blast
          moreover from run customer cv dl vh db dp v
          have "s' = snd (create_dns_record E ?url s5) \<or>
            s' = record_calls [LogError] (snd (create_dns_record E ?url s5))"
            by (auto simp: main_def Let_def log_and_exit_def split: prod.splits outcome.splits)
          ultimately have "files s' object_list = None"
            using create_dns_record_frame [of E ?url s5] by auto
          with dl vh db dp v show ?thesis by auto
        next
          case False
          then have failed: "\<forall>v. r5 \<noteq> Return v" by simp
          from deploy_app_fails_keeps [OF dp failed] i4
          have i5: "files s5 object_list \<noteq> None" by blast
          from run customer cv dl vh db dp failed
          have "s' = s5 \<or> s' = record_calls [LogError] s5"
            by (cases r5) (auto simp: main_def Let_def log_and_exit_def)
          with i5 have "files s' object_list \<noteq> None" by auto
          with dl vh db dp failed show ?thesis by auto
        qed
      qed
    qed
  qed
qed

lemma extraction_dir_at_the_end:
  assumes run: "main E event s = Some (r, s')"
    and customer: "event_customer event = Some customer"
    and cv: "check_version E s = (Return key, s1)"
    and dl: "download_from_s3 E key s1 = (Return extraction_path, s2)"
  shows "(extraction_path \<notin> dirs s') =
    (\<exists>s3 s4 v s5.
       create_vhost E customer extraction_path s2 = (Return (), s3) \<and>
       create_db E customer s3 = (Return (), s4) \<and>
       deploy_app E extraction_path s4 = Some (Return v, s5))"
proof -
  let ?url = "customer @ ''.'' @ domain (cfg E)"
  from check_version_Return [OF cv] have i1: "files s1 object_list \<noteq> None" by blast
  from download_from_s3_Return [OF dl] i1
  have i2: "files s2 object_list \<noteq> None" and d2: "extraction_path \<in> dirs s2" by blast+
  obtain r3 s3 where vh: "create_vhost E customer extraction_path s2 = (r3, s3)"
    by (cases "create_vhost E customer extraction_path s2")
  from create_vhost_keeps [OF i2, of E customer extraction_path] vh
  have i3: "files s3 object_list \<noteq> None" by simp
  from create_vhost_dirs [of E customer extraction_path s2] vh d2
  have d3: "extraction_path \<in> dirs s3" by simp
  show ?thesis
  proof (cases r3)
    case (SysExit n)
    with run customer cv dl vh d3 show ?thesis by (auto simp: main_def)
  next
    case Raise
    with run customer cv dl vh d3 show ?thesis by (auto simp: main_def log_and_exit_def)
  next
    case (Return u)
    note vh = vh [unfolded Return]
    obtain r4 s4 where db: "create_db E customer s3 = (r4, s4)"
      by (cases "create_db E customer s3")
    from create_db_frame [of E customer s3] db i3 d3
    have i4: "files s4 object_list \<noteq> None" and d4: "extraction_path \<in> dirs s4" by simp_all
    show ?thesis
    proof (cases r4)
      case (SysExit n)
      with run customer cv dl vh db d4 show ?thesis by (auto simp: main_def)
    next
      case Raise
      with run customer cv dl vh db d4 show ?thesis by (auto simp: main_def log_and_exit_def)
    next
      case (Return u')
      note db = db [unfolded Return]
      from run customer cv dl vh db obtain r5 s5 where
        dp: "deploy_app E extraction_path s4 = Some (r5, s5)"
        by (cases "deploy_app E extraction_path s4") (auto simp: main_def)
      show ?thesis
      proof (cases "\<exists>v. r5 = Return v")
        case True
        then obtain v where v: "r5 = Return v" ..
        from deploy_app_Return [OF dp [unfolded v]] i4
        have "extraction_path \<notin> dirs s5" by blast
        moreover from run customer cv dl vh db dp v
        have "s' = snd (create_dns_record E ?url s5) \<or>
          s' = record_calls [LogError] (snd (create_dns_record E ?url s5))"
          by (auto simp: main_def Let_def log_and_exit_def split: prod.splits outcome.splits)
        ultimately have "extraction_path \<notin> dirs s'"
          using create_dns_record_frame [of E ?url s5] by auto
        with vh db dp v show ?thesis by auto
      next
        case False
        then have failed: "\<forall>v. r5 \<noteq> Return v" by simp
        from deploy_app_fails_keeps [OF dp failed] d4
        have d5: "extraction_path \<in> dirs s5" by blast
        from run customer cv dl vh db dp failed
        have "s' = s5 \<or> s' = record_calls [LogError] s5"
          by (cases r5) (auto simp: main_def Let_def log_and_exit_def)
        with d5 have "extraction_path \<in> dirs s'" by auto
        with vh db dp failed show ?thesis by auto
      qed
    qed
  qed
qed

section \<open>The sample deployment, evaluated\<close>

lemmas pipeline_defs = main_def check_version_def index_text_def download_from_s3_def create_vhost_def
  create_db_def deploy_app_def create_dns_record_def clean_up_def rmtree_def is_below_def
  db_close_def db_handler_def log_and_exit_def record_calls_def can_open_for_writing_def
  path_exists_def extract_into_def py_str_def event_customer_def new_app_version_def
  vhost_conf_path_def create_database_stmt_def grant_stmt_def request_for_def
  dst_path_def object_list_def parent_def basename_def dirpart_def splitext_root_def
  readlines_def re_search_def in_fragment_def re_special_def strip_def py_isspace_def
  compact_timestamp_def format_d_def digit_char_def Let_def

lemmas sample_defs = sample_env_def sample_cfg_def fresh_state_def

lemma sample_run:
  "\<exists>s'. main sample_env (request_for ''acme'') fresh_state =
      Some (Return (make_output sample_env ''acme'' ''example.com-20240101-000000'' ''acme.example.com''), s')"
  by (simp add: pipeline_defs sample_defs poll_status.simps str_nat.simps)

lemma no_vhosts_stages:
  "\<exists>s1 s2. check_version no_vhosts_env fresh_state = (Return (Some ''v2.zip''), s1) \<and>
     download_from_s3 no_vhosts_env (Some ''v2.zip'') s1 = (Return ''/tmp/v2'', s2) \<and>
     fst (create_vhost no_vhosts_env ''acme'' ''/tmp/v2'' s2) = SysExit 1"
  by (simp add: pipeline_defs sample_defs no_vhosts_env_def)

lemma sample_stages:
  "\<exists>s1 s2. check_version sample_env fresh_state = (Return (Some ''v2.zip''), s1) \<and>
     download_from_s3 sample_env (Some ''v2.zip'') s1 = (Return ''/tmp/v2'', s2)"
  by (simp add: pipeline_defs sample_defs)

lemma no_vhosts_run:
  "map_option (\<lambda>(r, s'). (r, files s' object_list, ''/tmp/v2'' \<in> dirs s'))
     (main no_vhosts_env (request_for ''acme'') fresh_state) =
   Some (SysExit 1, Some ''v1.zip\<newline>v2.zip\<newline>v3.zip\<newline>'', True)"
  by (simp add: pipeline_defs sample_defs no_vhosts_env_def)

lemma request_customer: "event_customer (request_for customer) = Some customer"
  by (simp add: event_customer_def request_for_def)

lemma db_down_stages:
  "\<exists>key s1 xp s2 s3. check_version db_down_env fresh_state = (Return key, s1) \<and>
     download_from_s3 db_down_env key s1 = (Return xp, s2) \<and>
     create_vhost db_down_env ''acme'' xp s2 = (Return (), s3)"
  by (simp add: pipeline_defs sample_defs db_down_env_def)

lemma db_exists_stages:
  "\<exists>key s1 xp s2 s3. check_version db_exists_env fresh_state = (Return key, s1) \<and>
     download_from_s3 db_exists_env key s1 = (Return xp, s2) \<and>
     create_vhost db_exists_env ''acme'' xp s2 = (Return (), s3) \<and>
     make_zip db_exists_env xp \<noteq> None"
  by (simp add: pipeline_defs sample_defs db_exists_env_def)

lemma rejecting_db_stages:
  "\<exists>key s1 xp s2 s3. check_version rejecting_db_env fresh_state = (Return key, s1) \<and>
     download_from_s3 rejecting_db_env key s1 = (Return xp, s2) \<and>
     create_vhost rejecting_db_env ''acme corp'' xp s2 = (Return (), s3) \<and>
     files s3 (vhost_conf_path xp ''acme corp'') = Some (vhost_template sample_cfg ''acme corp'') \<and>
     make_zip rejecting_db_env xp \<noteq> None"
  by (simp add: pipeline_defs sample_defs rejecting_db_env_def)

lemma sample_label: "new_app_version sample_env = ''example.com-20240101-000000''"
  by (simp add: new_app_version_def compact_timestamp_def format_d_def digit_char_def
      str_nat.simps sample_defs)

section \<open>Lines of the index file\<close>

lemma split_lines_line:
  "no_linebreak k \<Longrightarrow> split_lines acc (k @ CHR 0x0A # rest) = (acc @ k @ [CHR 0x0A]) # split_lines [] rest"
  by (induction k arbitrary: acc) (simp_all add: no_linebreak_def)

lemma readlines_index_text:
  "list_all no_linebreak keys \<Longrightarrow> readlines (index_text keys) = map (\<lambda>k. k @ [CHR 0x0A]) keys"
  unfolding readlines_def index_text_def
  by (induction keys) (simp_all add: split_lines_line)

lemma index_text_append: "index_text (xs @ ys) = index_text xs @ index_text ys"
  by (simp add: index_text_def)

lemma check_version_result:
  assumes "eb_health E = Some v" "s3_keys E = Some keys" "can_open_for_writing s object_list"
  shows "files (snd (check_version E s)) object_list =
      Some ((case files s object_list of None \<Rightarrow> [] | Some c \<Rightarrow> c) @ index_text keys) \<and>
    fst (check_version E s) =
      (case first_match (re_search (re_other E) (v @ ''.zip''))
              (readlines ((case files s object_list of None \<Rightarrow> [] | Some c \<Rightarrow> c) @ index_text keys)) of
         None \<Rightarrow> SysExit 1
       | Some found \<Rightarrow> Return (map_option strip found))"
  using assms
  by (simp add: check_version_def Let_def can_open_for_writing_def log_and_exit_def
      split: option.splits)

lemma split_lines_unbroken:
  "no_linebreak k \<Longrightarrow> split_lines acc (k @ rest) = split_lines (acc @ k) rest"
  by (induction k arbitrary: acc) (simp_all add: no_linebreak_def)

lemmas search_defs = re_search_def in_fragment_def re_special_def strip_def py_isspace_def

lemma match_here_self: "match_here p (p @ rest)"
  by (induction p) simp_all

lemma match_here_search_from: "match_here p xs \<Longrightarrow> search_from p xs"
  by (cases xs) simp_all

lemma search_from_literal: "search_from p (before @ p @ rest)"
  by (induction before) (simp_all add: match_here_search_from match_here_self)

lemma search_from_sublist:
  assumes "sublist p k"
  shows "search_from p (k @ rest)"
proof -
  from assms obtain before after where "k = before @ p @ after"
    by (auto simp: sublist_def)
  then show ?thesis
    using search_from_literal [of p before "after @ rest"] by simp
qed

lemma first_match_map:
  "first_match (\<lambda>l. Some (P l)) (map f keys) = Some (map_option f (find (\<lambda>k. P (f k)) keys))"
  by (induction keys) simp_all

lemma dropWhile_append_last:
  assumes "\<not> list_all P xs"
  shows "dropWhile P (xs @ ys) = dropWhile P xs @ ys"
  using assms by (induction xs) simp_all

lemma strip_line: "strip (k @ [CHR 0x0A]) = strip k"
proof (cases "list_all py_isspace k")
  case True
  moreover have "py_isspace (CHR 0x0A)"
    by (simp add: py_isspace_def)
  ultimately have "\<forall>x\<in>set (k @ [CHR 0x0A]). py_isspace x" "\<forall>x\<in>set k. py_isspace x"
    by (simp_all add: list_all_iff)
  then have empty: "dropWhile py_isspace (k @ [CHR 0x0A]) = []" "dropWhile py_isspace k = []"
    by (simp_all only: dropWhile_eq_Nil_conv)
  show ?thesis unfolding strip_def empty by (rule refl)
next
  case False
  then have "dropWhile py_isspace (k @ [CHR 0x0A]) = dropWhile py_isspace k @ [CHR 0x0A]"
    by (rule dropWhile_append_last)
  then show ?thesis by (simp add: strip_def py_isspace_def)
qed

lemma in_fragment_pattern: "in_fragment (v @ ''.zip'') = in_fragment v"
  by (simp add: in_fragment_def re_special_def)

section \<open>The timestamp of the version label\<close>

lemma of_char_digit_char: "d < 10 \<Longrightarrow> of_char (digit_char d) = 48 + d"
proof -
  assume "d < 10"
  then have "d = 0 \<or> d = 1 \<or> d = 2 \<or> d = 3 \<or> d = 4 \<or> d = 5 \<or> d = 6 \<or> d = 7 \<or> d = 8 \<or> d = 9"
    by arith
  then show ?thesis
    by (elim disjE) (simp_all add: digit_char_def)
qed

lemma same_digits:
  fixes x y :: nat
  assumes "x div 10 = y div 10" "x mod 10 = y mod 10"
  shows "x = y"
  using assms by (metis div_mult_mod_eq)

lemma replicate_small: "replicate 3 x = [x, x, x]" "replicate 2 x = [x, x]"
  by (simp_all add: numeral_2_eq_2 numeral_3_eq_3)

lemma digit_char_inj:
  assumes "a < 10" "b < 10" "digit_char a = digit_char b"
  shows "a = b"
proof -
  from assms(3) have "(of_char (digit_char a) :: nat) = of_char (digit_char b)" by simp
  with assms(1,2) show ?thesis by (simp add: of_char_digit_char)
qed

lemma str_nat_1: "n < 10 \<Longrightarrow> str_nat n = [digit_char n]"
  by (simp add: str_nat.simps)

lemma str_nat_2: "10 \<le> n \<Longrightarrow> n < 100 \<Longrightarrow> str_nat n = [digit_char (n div 10), digit_char (n mod 10)]"
  by (subst str_nat.simps) (simp add: str_nat_1)

lemma str_nat_3:
  "100 \<le> n \<Longrightarrow> n < 1000 \<Longrightarrow>
   str_nat n = [digit_char (n div 100), digit_char (n div 10 mod 10), digit_char (n mod 10)]"
  by (subst str_nat.simps) (simp add: str_nat_2 div_mult2_eq [symmetric])

lemma str_nat_4:
  "1000 \<le> n \<Longrightarrow> n < 10000 \<Longrightarrow>
   str_nat n = [digit_char (n div 1000), digit_char (n div 100 mod 10), digit_char (n div 10 mod 10),
     digit_char (n mod 10)]"
  by (subst str_nat.simps) (simp add: str_nat_3 div_mult2_eq [symmetric])

lemma digit_char_0: "digit_char 0 = CHR ''0''"
  by (simp add: digit_char_def)

lemma format_d_2:
  assumes "n < 100"
  shows "format_d 2 n = [digit_char (n div 10), digit_char (n mod 10)]"
proof (cases "n < 10")
  case True
  then show ?thesis by (simp add: format_d_def str_nat_1 digit_char_0)
next
  case False
  with assms show ?thesis by (simp add: format_d_def str_nat_2)
qed

lemma format_d_4:
  assumes "n < 10000"
  shows "format_d 4 n = [digit_char (n div 1000), digit_char (n div 100 mod 10),
    digit_char (n div 10 mod 10), digit_char (n mod 10)]"
proof -
  consider "n < 10" | "10 \<le> n" "n < 100" | "100 \<le> n" "n < 1000" | "1000 \<le> n"
    by linarith
  then show ?thesis
  proof cases
    case 1
    then show ?thesis by (simp add: format_d_def str_nat_1 digit_char_0 replicate_small)
  next
    case 2
    then show ?thesis by (simp add: format_d_def str_nat_2 digit_char_0 replicate_small)
  next
    case 3
    then show ?thesis by (simp add: format_d_def str_nat_3 digit_char_0)
  next
    case 4
    with assms show ?thesis by (simp add: format_d_def str_nat_4)
  qed
qed

lemma format_d_2_inj:
  assumes "a < 100" "b < 100" "format_d 2 a = format_d 2 b"
  shows "a = b"
proof -
  from assms have "digit_char (a div 10) = digit_char (b div 10)" "digit_char (a mod 10) = digit_char (b mod 10)"
    by (simp_all add: format_d_2)
  moreover from assms(1,2) have "a div 10 < 10" "b div 10 < 10" "a mod 10 < 10" "b mod 10 < 10"
    by simp_all
  ultimately have "a div 10 = b div 10" "a mod 10 = b mod 10"
    by (blast intro: digit_char_inj)+
  then show ?thesis by (rule same_digits)
qed

lemma format_d_4_inj:
  assumes "a < 10000" "b < 10000" "format_d 4 a = format_d 4 b"
  shows "a = b"
proof -
  from assms have eq: "digit_char (a div 1000) = digit_char (b div 1000)"
    "digit_char (a div 100 mod 10) = digit_char (b div 100 mod 10)"
    "digit_char (a div 10 mod 10) = digit_char (b div 10 mod 10)"
    "digit_char (a mod 10) = digit_char (b mod 10)"
    by (simp_all add: format_d_4)
  from assms(1,2) have "a div 1000 < 10" "b div 1000 < 10" by simp_all
  with eq(1) have d3: "a div 1000 = b div 1000" by (blast intro: digit_char_inj)
  have "a div 100 mod 10 < 10" "b div 100 mod 10 < 10" by simp_all
  with eq(2) have d2: "a div 100 mod 10 = b div 100 mod 10" by (blast intro: digit_char_inj)
  have "a div 10 mod 10 < 10" "b div 10 mod 10 < 10" by simp_all
  with eq(3) have d1: "a div 10 mod 10 = b div 10 mod 10" by (blast intro: digit_char_inj)
  have "a mod 10 < 10" "b mod 10 < 10" by simp_all
  with eq(4) have d0: "a mod 10 = b mod 10" by (blast intro: digit_char_inj)
  from d3 have "a div 100 div 10 = b div 100 div 10"
    by (simp add: div_mult2_eq [symmetric])
  with d2 have "a div 100 = b div 100" by (blast intro: same_digits)
  then have "a div 10 div 10 = b div 10 div 10"
    by (simp add: div_mult2_eq [symmetric])
  with d1 have "a div 10 = b div 10" by (blast intro: same_digits)
  with d0 show ?thesis by (blast intro: same_digits)
qed

lemma length_format_d_2: "n < 100 \<Longrightarrow> length (format_d 2 n) = 2"
  by (simp add: format_d_2)

lemma length_format_d_4: "n < 10000 \<Longrightarrow> length (format_d 4 n) = 4"
  by (simp add: format_d_4)

lemma length_compact_timestamp: "valid_datetime t \<Longrightarrow> length (compact_timestamp t) = 15"
  by (simp add: valid_datetime_def compact_timestamp_def length_format_d_2 length_format_d_4)

lemma compact_timestamp_inj:
  assumes "valid_datetime t" "valid_datetime u" "compact_timestamp t = compact_timestamp u"
  shows "t = u"
proof -
  from assms(1) have t: "year t < 10000" "month t < 100" "day t < 100" "hour t < 100"
    "minute t < 100" "second t < 100"
    by (simp_all add: valid_datetime_def)
  from assms(2) have u: "year u < 10000" "month u < 100" "day u < 100" "hour u < 100"
    "minute u < 100" "second u < 100"
    by (simp_all add: valid_datetime_def)
  from assms(3) t u
  have "format_d 4 (year t) = format_d 4 (year u)" "format_d 2 (month t) = format_d 2 (month u)"
    "format_d 2 (day t) = format_d 2 (day u)" "format_d 2 (hour t) = format_d 2 (hour u)"
    "format_d 2 (minute t) = format_d 2 (minute u)" "format_d 2 (second t) = format_d 2 (second u)"
    by (simp_all add: compact_timestamp_def length_format_d_2 length_format_d_4)
  with t u have "year t = year u" "month t = month u" "day t = day u" "hour t = hour u"
    "minute t = minute u" "second t = second u"
    by (blast intro: format_d_2_inj format_d_4_inj)+
  then show ?thesis by simp
qed

lemma compact_timestamp_digits:
  assumes "valid_datetime t"
  shows "compact_timestamp t =
    [digit_char (year t div 1000), digit_char (year t div 100 mod 10),
     digit_char (year t div 10 mod 10), digit_char (year t mod 10),
     digit_char (month t div 10), digit_char (month t mod 10),
     digit_char (day t div 10), digit_char (day t mod 10), CHR ''-'',
     digit_char (hour t div 10), digit_char (hour t mod 10),
     digit_char (minute t div 10), digit_char (minute t mod 10),
     digit_char (second t div 10), digit_char (second t mod 10)]"
  using assms by (simp add: valid_datetime_def compact_timestamp_def format_d_2 format_d_4)

lemma new_app_version_eq_iff:
  assumes "valid_datetime (now E)" "valid_datetime (now E')"
  shows "(new_app_version E = new_app_version E') = (domain (cfg E) = domain (cfg E') \<and> now E = now E')"
proof
  assume eq: "new_app_version E = new_app_version E'"
  have "length (''-'' @ compact_timestamp (now E)) = length (''-'' @ compact_timestamp (now E'))"
    using assms by (simp add: length_compact_timestamp)
  with eq have "domain (cfg E) = domain (cfg E')" "compact_timestamp (now E) = compact_timestamp (now E')"
    unfolding new_app_version_def by (simp_all del: append.simps length_append)
  with assms show "domain (cfg E) = domain (cfg E') \<and> now E = now E'"
    by (blast intro: compact_timestamp_inj)
next
  assume "domain (cfg E) = domain (cfg E') \<and> now E = now E'"
  then show "new_app_version E = new_app_version E'"
    by (simp add: new_app_version_def)
qed

section \<open>The status loop of the deployment publisher\<close>

text \<open>
  C7. The status loop leaves normally only on a poll that reports \<^verbatim>\<open>PROCESSED\<close>; when no
  poll ever reports it (every poll answering with some other status), the loop does not
  end, and neither does \<^verbatim>\<open>deploy_app\<close> once it has reached the loop. There is no bound
  on the attempts: when the first \<^verbatim>\<open>PROCESSED\<close> comes at poll number \<open>n\<close>, the loop has
  issued \<open>n + 1\<close> polls, whatever \<open>n\<close> is.
\<close>

theorem poll_status_leaves_only_on_processed:
  "(poll_status E v i s = Some (Return u, s') \<longrightarrow>
      (\<exists>n. version_status E v (i + n) = Some ''PROCESSED'')) \<and>
   ((\<forall>n. \<exists>st. version_status E v (i + n) = Some st \<and> st \<noteq> ''PROCESSED'') \<longrightarrow>
      poll_status E v i s = None) \<and>
   ((\<forall>k<n. \<exists>st. version_status E v (i + k) = Some st \<and> st \<noteq> ''PROCESSED'') \<and>
    version_status E v (i + n) = Some ''PROCESSED'' \<longrightarrow>
      poll_status E v i s =
        Some (Return (),
          record_calls (replicate (Suc n) (EbDescribeApplicationVersions (app_name (cfg E)) v)) s)) \<and>
   (dir_name \<in> dirs s \<and> make_zip E dir_name \<noteq> None \<and> s3_put_ok E (new_app_version E @ ''.zip'') \<and>
    eb_create_ok E (new_app_version E) \<and>
    (\<forall>n. \<exists>st. version_status E (new_app_version E) n = Some st \<and> st \<noteq> ''PROCESSED'') \<longrightarrow>
      deploy_app E dir_name s = None)"
proof (intro conjI impI)
  assume ret: "poll_status E v i s = Some (Return u, s')"
  from poll_status_exit [OF ret] obtain n where
    "case version_status E v (i + n) of
        None \<Rightarrow> fst (Return u, s') = Raise
      | Some st \<Rightarrow> st = ''PROCESSED'' \<and> fst (Return u, s') = Return ()"
    by blast
  then have "version_status E v (i + n) = Some ''PROCESSED''"
    by (cases "version_status E v (i + n)") simp_all
  then show "\<exists>n. version_status E v (i + n) = Some ''PROCESSED''" by blast
next
  assume "\<forall>n. \<exists>st. version_status E v (i + n) = Some st \<and> st \<noteq> ''PROCESSED''"
  then show "poll_status E v i s = None" by (rule poll_status_never)
next
  assume b: "(\<forall>k<n. \<exists>st. version_status E v (i + k) = Some st \<and> st \<noteq> ''PROCESSED'') \<and>
    version_status E v (i + n) = Some ''PROCESSED''"
  show "poll_status E v i s =
        Some (Return (),
          record_calls (replicate (Suc n) (EbDescribeApplicationVersions (app_name (cfg E)) v)) s)"
    by (rule poll_status_returns [OF b [THEN conjunct1] b [THEN conjunct2]])
next
  assume a: "dir_name \<in> dirs s \<and> make_zip E dir_name \<noteq> None \<and>
    s3_put_ok E (new_app_version E @ ''.zip'') \<and> eb_create_ok E (new_app_version E) \<and>
    (\<forall>n. \<exists>st. version_status E (new_app_version E) n = Some st \<and> st \<noteq> ''PROCESSED'')"
  then have "\<forall>n. \<exists>st. version_status E (new_app_version E) (0 + n) = Some st \<and> st \<noteq> ''PROCESSED''"
    by simp
  then have loops: "\<And>t. poll_status E (new_app_version E) 0 t = None"
    by (rule poll_status_never)
  from a obtain bytes where bytes: "make_zip E dir_name = Some bytes"
    by auto
  from a have "dir_name \<in> dirs s" "s3_put_ok E (new_app_version E @ ''.zip'')"
    "eb_create_ok E (new_app_version E)"
    by simp_all
  with bytes loops show "deploy_app E dir_name s = None"
    by (simp add: deploy_app_def Let_def)
qed

theorem poll_status_leaves_only_on_processed_witness:
  "poll_status stuck_env ''v'' 0 unpacked_state = None \<and>
   deploy_app stuck_env ''/tmp/v2'' unpacked_state = None \<and>
   poll_status sample_env ''v'' 0 unpacked_state =
     Some (Return (),
       record_calls (replicate 3 (EbDescribeApplicationVersions ''shop'' ''v'')) unpacked_state) \<and>
   (\<exists>n. version_status sample_env ''v'' (0 + n) = Some ''PROCESSED'')"
proof -
  note stuck_thm = poll_status_leaves_only_on_processed [of stuck_env "''v''" 0 unpacked_state]
  note sample_thm = poll_status_leaves_only_on_processed
    [of sample_env "''v''" 0 unpacked_state "()" _ 2]
  have never: "\<forall>n. \<exists>st. version_status stuck_env v (i + n) = Some st \<and> st \<noteq> ''PROCESSED''" for v i
    by (simp add: stuck_env_def)
  have stuck: "poll_status stuck_env ''v'' 0 unpacked_state = None"
    by (rule stuck_thm [THEN conjunct2, THEN conjunct1, THEN mp]) (rule never)
  have blocked: "deploy_app stuck_env ''/tmp/v2'' unpacked_state = None"
  proof (rule poll_status_leaves_only_on_processed
      [THEN conjunct2, THEN conjunct2, THEN conjunct2, THEN mp], intro conjI)
    show "''/tmp/v2'' \<in> dirs unpacked_state"
      by (simp add: unpacked_state_def)
    show "make_zip stuck_env ''/tmp/v2'' \<noteq> None"
      by (simp add: stuck_env_def sample_env_def)
    show "s3_put_ok stuck_env (new_app_version stuck_env @ ''.zip'')"
      by (simp add: stuck_env_def sample_env_def)
    show "eb_create_ok stuck_env (new_app_version stuck_env)"
      by (simp add: stuck_env_def sample_env_def)
    show "\<forall>n. \<exists>st. version_status stuck_env (new_app_version stuck_env) n = Some st \<and> st \<noteq> ''PROCESSED''"
      using never [of _ 0] by simp
  qed
  have before: "\<forall>k<2. \<exists>st. version_status sample_env ''v'' (0 + k) = Some st \<and> st \<noteq> ''PROCESSED''"
    by (simp add: sample_env_def)
  have at: "version_status sample_env ''v'' (0 + 2) = Some ''PROCESSED''"
    by (simp add: sample_env_def)
  have "poll_status sample_env ''v'' 0 unpacked_state =
     Some (Return (),
       record_calls (replicate (Suc 2) (EbDescribeApplicationVersions (app_name (cfg sample_env)) ''v''))
         unpacked_state)"
    by (rule sample_thm [THEN conjunct2, THEN conjunct2, THEN conjunct1, THEN mp]) (intro conjI before at)
  then have third: "poll_status sample_env ''v'' 0 unpacked_state =
     Some (Return (),
       record_calls (replicate 3 (EbDescribeApplicationVersions ''shop'' ''v'')) unpacked_state)"
    by (simp add: sample_env_def sample_cfg_def eval_nat_numeral)
  have "\<exists>n. version_status sample_env ''v'' (0 + n) = Some ''PROCESSED''"
    by (rule sample_thm [THEN conjunct1, THEN mp]) (rule third)
  with stuck blocked third show ?thesis by (intro conjI)
qed

section \<open>The result of a successful run\<close>

text \<open>
  C2. Whenever \<^verbatim>\<open>main\<close> returns its result, for whatever customer identifier the event
  carries, the field \<^verbatim>\<open>Domain\<close> is the identifier, a dot and the configured domain, the
  fields \<^verbatim>\<open>RdsDbName\<close> and \<^verbatim>\<open>CustomerName\<close> are the identifier, and \<^verbatim>\<open>Status\<close> is
  \<^verbatim>\<open>deployed\<close>.
\<close>

theorem main_success_payload:
  assumes "main E event s = Some (Return out, s')"
  shows "\<exists>customerId. event_customer event = Some customerId \<and>
    Domain' out = customerId @ ''.'' @ domain (cfg E) \<and> RdsDbName out = customerId \<and>
    CustomerName out = customerId \<and> Status out = ''deployed''"
  using assms by (elim main_ReturnE) (simp add: make_output_def)

theorem main_success_payload_witness:
  "\<exists>out s'. main sample_env (request_for ''acme'') fresh_state = Some (Return out, s') \<and>
     event_customer (request_for ''acme'') = Some ''acme'' \<and>
     Domain' out = ''acme.example.com'' \<and> RdsDbName out = ''acme'' \<and> Status out = ''deployed''"
proof -
  from sample_run obtain s' where run: "main sample_env (request_for ''acme'') fresh_state =
      Some (Return (make_output sample_env ''acme'' ''example.com-20240101-000000'' ''acme.example.com''), s')"
    by blast
  from main_success_payload [OF run] show ?thesis
    using run by (simp add: event_customer_def request_for_def sample_defs make_output_def)
qed

section \<open>Cleanup of the transient files\<close>

text \<open>
  C1, as stated, does not hold: \<^verbatim>\<open>clean_up\<close> is called at one place, the end of the
  \<^verbatim>\<open>try\<close> block of \<^verbatim>\<open>deploy_app\<close>, and every handler ends the process with
  \<^verbatim>\<open>sys.exit(1)\<close>. With an archive that lacks \<^verbatim>\<open>.ebextensions/vhosts\<close> the run stops in
  \<^verbatim>\<open>create_vhost\<close>, and both the index file and the extraction directory \<^verbatim>\<open>/tmp/v2\<close>
  are still there when it ends.
\<close>

theorem cleanup_skipped_when_a_stage_fails:
  "map_option (\<lambda>(r, s'). (r, files s' object_list, ''/tmp/v2'' \<in> dirs s'))
     (main no_vhosts_env (request_for ''acme'') fresh_state) =
   Some (SysExit 1, Some ''v1.zip\<newline>v2.zip\<newline>v3.zip\<newline>'', True)"
  by (rule no_vhosts_run)

text \<open>
  C1, amended. \<^verbatim>\<open>clean_up\<close> runs at the end of \<^verbatim>\<open>deploy_app\<close> and nowhere else. So, for a
  run that ends after \<^verbatim>\<open>check_version\<close> has returned: the index file is gone at the end
  exactly when the run has got through \<^verbatim>\<open>deploy_app\<close>, and so is the extraction
  directory that \<^verbatim>\<open>download_from_s3\<close> created. In particular both are deleted on every
  run in which \<^verbatim>\<open>main\<close> returns its result, and both are left behind when a stage
  from the download to the deployment fails.
\<close>

theorem cleanup_exactly_when_deploy_app_completes:
  assumes run: "main E event s = Some (r, s')"
    and customer: "event_customer event = Some customer"
    and cv: "check_version E s = (Return key, s1)"
  shows "((\<exists>out. r = Return out) \<longrightarrow>
       files s' object_list = None \<and>
       (\<forall>extraction_path s2. download_from_s3 E key s1 = (Return extraction_path, s2) \<longrightarrow>
          extraction_path \<notin> dirs s')) \<and>
    (files s' object_list = None) =
      (\<exists>extraction_path s2 s3 s4 v s5.
         download_from_s3 E key s1 = (Return extraction_path, s2) \<and>
         create_vhost E customer extraction_path s2 = (Return (), s3) \<and>
         create_db E customer s3 = (Return (), s4) \<and>
         deploy_app E extraction_path s4 = Some (Return v, s5)) \<and>
    (\<forall>extraction_path s2. download_from_s3 E key s1 = (Return extraction_path, s2) \<longrightarrow>
       (extraction_path \<notin> dirs s') =
         (\<exists>s3 s4 v s5.
            create_vhost E customer extraction_path s2 = (Return (), s3) \<and>
            create_db E customer s3 = (Return (), s4) \<and>
            deploy_app E extraction_path s4 = Some (Return v, s5)))"
proof (intro conjI allI impI)
  show index: "(files s' object_list = None) =
      (\<exists>extraction_path s2 s3 s4 v s5.
         download_from_s3 E key s1 = (Return extraction_path, s2) \<and>
         create_vhost E customer extraction_path s2 = (Return (), s3) \<and>
         create_db E customer s3 = (Return (), s4) \<and>
         deploy_app E extraction_path s4 = Some (Return v, s5))"
    by (rule index_file_at_the_end [OF run customer cv])
  show dir: "(extraction_path \<notin> dirs s') =
         (\<exists>s3 s4 v s5.
            create_vhost E customer extraction_path s2 = (Return (), s3) \<and>
            create_db E customer s3 = (Return (), s4) \<and>
            deploy_app E extraction_path s4 = Some (Return v, s5))"
    if "download_from_s3 E key s1 = (Return extraction_path, s2)" for extraction_path s2
    by (rule extraction_dir_at_the_end [OF run customer cv that])
  assume "\<exists>out. r = Return out"
  then obtain out where out: "main E event s = Some (Return out, s')"
    using run by blast
  from out customer cv obtain xp t2 t3 t4 v t5 where stages:
    "download_from_s3 E key s1 = (Return xp, t2)"
    "create_vhost E customer xp t2 = (Return (), t3)"
    "create_db E customer t3 = (Return (), t4)"
    "deploy_app E xp t4 = Some (Return v, t5)"
    by (elim main_ReturnE) auto
  with index show "files s' object_list = None" by blast
  fix extraction_path s2
  assume dl: "download_from_s3 E key s1 = (Return extraction_path, s2)"
  with stages have "extraction_path = xp" "s2 = t2" by simp_all
  with stages dir [OF dl] show "extraction_path \<notin> dirs s'" by blast
qed

theorem cleanup_exactly_when_deploy_app_completes_witness:
  "(\<exists>out s'. main sample_env (request_for ''acme'') fresh_state = Some (Return out, s') \<and>
      files s' object_list = None \<and> ''/tmp/v2'' \<notin> dirs s') \<and>
   (\<exists>s'. main no_vhosts_env (request_for ''acme'') fresh_state = Some (SysExit 1, s') \<and>
      files s' object_list \<noteq> None \<and> ''/tmp/v2'' \<in> dirs s')"
proof -
  from sample_run obtain out s' where run:
    "main sample_env (request_for ''acme'') fresh_state = Some (Return out, s')"
    by blast
  from sample_stages obtain s1 s2 where stages:
    "check_version sample_env fresh_state = (Return (Some ''v2.zip''), s1)"
    "download_from_s3 sample_env (Some ''v2.zip'') s1 = (Return ''/tmp/v2'', s2)"
    by blast
  from cleanup_exactly_when_deploy_app_completes [OF run request_customer stages(1)] stages(2)
  have "files s' object_list = None \<and> ''/tmp/v2'' \<notin> dirs s'"
    by blast
  with run have first: "\<exists>out s'. main sample_env (request_for ''acme'') fresh_state = Some (Return out, s') \<and>
      files s' object_list = None \<and> ''/tmp/v2'' \<notin> dirs s'"
    by blast
  from no_vhosts_run obtain t' where failed:
    "main no_vhosts_env (request_for ''acme'') fresh_state = Some (SysExit 1, t')"
    by (auto simp: map_option_case split: option.splits)
  from no_vhosts_stages obtain t1 t2 where broken:
    "check_version no_vhosts_env fresh_state = (Return (Some ''v2.zip''), t1)"
    "download_from_s3 no_vhosts_env (Some ''v2.zip'') t1 = (Return ''/tmp/v2'', t2)"
    "fst (create_vhost no_vhosts_env ''acme'' ''/tmp/v2'' t2) = SysExit 1"
    by blast
  note inst = cleanup_exactly_when_deploy_app_completes [OF failed request_customer broken(1)]
  from inst [THEN conjunct2, THEN conjunct1] broken(2,3)
  have "files t' object_list \<noteq> None"
    by auto
  moreover from inst [THEN conjunct2, THEN conjunct2, rule_format, OF broken(2)] broken(3)
  have "''/tmp/v2'' \<in> dirs t'"
    by auto
  ultimately have "\<exists>s'. main no_vhosts_env (request_for ''acme'') fresh_state = Some (SysExit 1, s') \<and>
      files s' object_list \<noteq> None \<and> ''/tmp/v2'' \<in> dirs s'"
    using failed by blast
  with first show ?thesis by (rule conjI)
qed

section \<open>Database provisioning\<close>

text \<open>
  C5, as stated, does not hold: \<^verbatim>\<open>pymysql.connect\<close> is called before the \<^verbatim>\<open>try\<close> of
  \<^verbatim>\<open>create_db\<close>, so a server that cannot be reached raises out of \<^verbatim>\<open>create_db\<close> into the
  handler of \<^verbatim>\<open>main\<close>, which ends the run. Nothing is deployed and no DNS record is
  requested: the last calls of the run are the connection attempt and the error log.
\<close>

theorem connection_failure_aborts_the_run:
  "map_option (\<lambda>(r, s'). (r, trace s'))
     (main db_down_env (request_for ''acme'') fresh_state) =
   Some (SysExit 1,
     [LogInfo ''Getting app version'', EbDescribeInstancesHealth ''shop-prod'',
      LogInfo ''Current app version: v2'', LogInfo ''Finding the app version in shop-builds'',
      S3ListObjects ''shop-builds'', LogInfo ''Downloading app version to /tmp/v2'',
      S3DownloadFile ''shop-builds'' ''v2.zip'' ''/tmp/v2.zip'', LogInfo ''App downloaded'',
      LogInfo ''Creating VirtualHost config'', LogInfo ''VirtualHost config created'',
      DbConnect ''db.internal'' ''admin'' ''secret'', LogError])"
  by (simp add: pipeline_defs sample_defs db_down_env_def)

text \<open>
  C5, amended. Once the connection is open, and provided \<^verbatim>\<open>rollback\<close> and \<^verbatim>\<open>close\<close> do
  not raise themselves, \<^verbatim>\<open>create_db\<close> returns normally whatever the two statements do:
  when one of them fails (a database of that name exists already, say) the error is
  logged, the transaction is rolled back and the connection is closed. The run then
  goes on: if the other stages succeed, \<^verbatim>\<open>main\<close> returns its result and the DNS record
  has been requested, whether or not the statements succeeded. When the connection
  cannot be opened, \<^verbatim>\<open>create_db\<close> raises, and a run that has come this far ends with
  \<^verbatim>\<open>sys.exit(1)\<close> right after the connection attempt.
\<close>

theorem statement_errors_do_not_abort:
  "(db_connect_ok E \<and> db_rollback_ok E \<and> db_close_ok E \<longrightarrow>
      fst (create_db E customer s) = Return () \<and>
      trace (snd (create_db E customer s)) =
        trace s @ [DbConnect (rds_hostname (cfg E)) (rds_username (cfg E)) (rds_password (cfg E)),
                   LogInfo (''Creating '' @ customer @ '' in '' @ rds_hostname (cfg E) @ ''...''),
                   DbExecute (create_database_stmt customer)] @
        (if \<not> db_execute_ok E (create_database_stmt customer) then [LogError, DbRollback, DbClose]
         else if \<not> db_execute_ok E (grant_stmt customer (rds_username (cfg E)))
           then [DbExecute (grant_stmt customer (rds_username (cfg E))), LogError, DbRollback, DbClose]
           else [DbExecute (grant_stmt customer (rds_username (cfg E))), DbClose])) \<and>
   (db_connect_ok E \<and> db_rollback_ok E \<and> db_close_ok E \<and>
    event_customer event = Some customer \<and> check_version E s0 = (Return key, s1) \<and>
    download_from_s3 E key s1 = (Return extraction_path, s2) \<and>
    create_vhost E customer extraction_path s2 = (Return (), s3) \<and>
    make_zip E extraction_path \<noteq> None \<and> s3_put_ok E (new_app_version E @ ''.zip'') \<and>
    eb_create_ok E (new_app_version E) \<and>
    (\<forall>k<n. \<exists>st. version_status E (new_app_version E) k = Some st \<and> st \<noteq> ''PROCESSED'') \<and>
    version_status E (new_app_version E) n = Some ''PROCESSED'' \<and>
    eb_update_ok E (new_app_version E) \<and> r53_ok E (customer @ ''.'' @ domain (cfg E)) \<longrightarrow>
      (\<exists>s'. main E event s0 =
         Some (Return (make_output E customer (new_app_version E) (customer @ ''.'' @ domain (cfg E))), s') \<and>
         R53CreateRecord (hosted_zone_id (cfg E)) (customer @ ''.'' @ domain (cfg E)) (eb_url (cfg E))
           \<in> set (trace s'))) \<and>
   (\<not> db_connect_ok E \<longrightarrow>
      create_db E customer s =
        (Raise, record_calls
           [DbConnect (rds_hostname (cfg E)) (rds_username (cfg E)) (rds_password (cfg E))] s)) \<and>
   (\<not> db_connect_ok E \<and>
    event_customer event = Some customer \<and> check_version E s0 = (Return key, s1) \<and>
    download_from_s3 E key s1 = (Return extraction_path, s2) \<and>
    create_vhost E customer extraction_path s2 = (Return (), s3) \<longrightarrow>
      main E event s0 =
        Some (SysExit 1, record_calls
           [DbConnect (rds_hostname (cfg E)) (rds_username (cfg E)) (rds_password (cfg E)), LogError] s3))"
proof (intro conjI impI)
  assume db: "db_connect_ok E \<and> db_rollback_ok E \<and> db_close_ok E"
  then have ok: "db_connect_ok E" "db_rollback_ok E" "db_close_ok E" by simp_all
  show "fst (create_db E customer s) = Return ()"
    using create_db_returns [OF ok] by blast
  show "trace (snd (create_db E customer s)) =
        trace s @ [DbConnect (rds_hostname (cfg E)) (rds_username (cfg E)) (rds_password (cfg E)),
                   LogInfo (''Creating '' @ customer @ '' in '' @ rds_hostname (cfg E) @ ''...''),
                   DbExecute (create_database_stmt customer)] @
        (if \<not> db_execute_ok E (create_database_stmt customer) then [LogError, DbRollback, DbClose]
         else if \<not> db_execute_ok E (grant_stmt customer (rds_username (cfg E)))
           then [DbExecute (grant_stmt customer (rds_username (cfg E))), LogError, DbRollback, DbClose]
           else [DbExecute (grant_stmt customer (rds_username (cfg E))), DbClose])"
    using create_db_returns [OF ok] by blast
next
  assume a: "db_connect_ok E \<and> db_rollback_ok E \<and> db_close_ok E \<and>
    event_customer event = Some customer \<and> check_version E s0 = (Return key, s1) \<and>
    download_from_s3 E key s1 = (Return extraction_path, s2) \<and>
    create_vhost E customer extraction_path s2 = (Return (), s3) \<and>
    make_zip E extraction_path \<noteq> None \<and> s3_put_ok E (new_app_version E @ ''.zip'') \<and>
    eb_create_ok E (new_app_version E) \<and>
    (\<forall>k<n. \<exists>st. version_status E (new_app_version E) k = Some st \<and> st \<noteq> ''PROCESSED'') \<and>
    version_status E (new_app_version E) n = Some ''PROCESSED'' \<and>
    eb_update_ok E (new_app_version E) \<and> r53_ok E (customer @ ''.'' @ domain (cfg E))"
  have "\<exists>s'. main E event s0 =
      Some (Return (make_output E customer (new_app_version E) (customer @ ''.'' @ domain (cfg E))), s') \<and>
    DbExecute (create_database_stmt customer) \<in> set (trace s') \<and>
    R53CreateRecord (hosted_zone_id (cfg E)) (customer @ ''.'' @ domain (cfg E)) (eb_url (cfg E))
      \<in> set (trace s')"
    by (rule main_succeeds [where key = key and ?s1.0 = s1 and ?s2.0 = s2 and ?s3.0 = s3
          and extraction_path = extraction_path and n = n])
       (use a in blast)+
  then show "\<exists>s'. main E event s0 =
        Some (Return (make_output E customer (new_app_version E) (customer @ ''.'' @ domain (cfg E))), s') \<and>
        R53CreateRecord (hosted_zone_id (cfg E)) (customer @ ''.'' @ domain (cfg E)) (eb_url (cfg E))
          \<in> set (trace s')"
    by blast
next
  assume "\<not> db_connect_ok E"
  then show "create_db E customer s =
        (Raise, record_calls
           [DbConnect (rds_hostname (cfg E)) (rds_username (cfg E)) (rds_password (cfg E))] s)"
    by (simp add: create_db_def Let_def)
next
  assume a: "\<not> db_connect_ok E \<and>
    event_customer event = Some customer \<and> check_version E s0 = (Return key, s1) \<and>
    download_from_s3 E key s1 = (Return extraction_path, s2) \<and>
    create_vhost E customer extraction_path s2 = (Return (), s3)"
  then have "create_db E customer s3 =
      (Raise, record_calls
         [DbConnect (rds_hostname (cfg E)) (rds_username (cfg E)) (rds_password (cfg E))] s3)"
    by (simp add: create_db_def Let_def)
  with a show "main E event s0 =
        Some (SysExit 1, record_calls
           [DbConnect (rds_hostname (cfg E)) (rds_username (cfg E)) (rds_password (cfg E)), LogError] s3)"
    by (simp add: main_def Let_def log_and_exit_def record_calls_twice)
qed

theorem statement_errors_do_not_abort_witness:
  "fst (create_db db_exists_env ''acme'' fresh_state) = Return () \<and>
   trace (snd (create_db db_exists_env ''acme'' fresh_state)) =
     [DbConnect ''db.internal'' ''admin'' ''secret'', LogInfo ''Creating acme in db.internal...'',
      DbExecute ''CREATE DATABASE acme'', LogError, DbRollback, DbClose] \<and>
   (\<exists>s'. main db_exists_env (request_for ''acme'') fresh_state =
      Some (Return (make_output sample_env ''acme'' ''example.com-20240101-000000'' ''acme.example.com''), s') \<and>
      R53CreateRecord ''Z1'' ''acme.example.com'' ''shop-prod.elasticbeanstalk.com'' \<in> set (trace s')) \<and>
   fst (create_db db_down_env ''acme'' fresh_state) = Raise \<and>
   map_option fst (main db_down_env (request_for ''acme'') fresh_state) = Some (SysExit 1)"
proof -
  have db: "db_connect_ok db_exists_env \<and> db_rollback_ok db_exists_env \<and> db_close_ok db_exists_env"
    by (simp add: db_exists_env_def sample_env_def)
  have label: "new_app_version db_exists_env = ''example.com-20240101-000000''"
    using sample_label by (simp add: new_app_version_def db_exists_env_def)
  from db_exists_stages obtain key s1 xp s2 s3 where stages:
    "check_version db_exists_env fresh_state = (Return key, s1)"
    "download_from_s3 db_exists_env key s1 = (Return xp, s2)"
    "create_vhost db_exists_env ''acme'' xp s2 = (Return (), s3)"
    "make_zip db_exists_env xp \<noteq> None"
    by blast
  note inst = statement_errors_do_not_abort [where E = db_exists_env and customer = "''acme''"
      and s = fresh_state and event = "request_for ''acme''" and ?s0.0 = fresh_state and key = key
      and ?s1.0 = s1 and extraction_path = xp and ?s2.0 = s2 and ?s3.0 = s3 and n = 2]
  have cfg: "cfg db_exists_env = sample_cfg" "make_output db_exists_env = make_output sample_env"
    by (simp_all add: db_exists_env_def sample_env_def make_output_def fun_eq_iff)
  have cfg_fields: "domain sample_cfg = ''example.com''" "hosted_zone_id sample_cfg = ''Z1''"
    "eb_url sample_cfg = ''shop-prod.elasticbeanstalk.com''" "rds_hostname sample_cfg = ''db.internal''"
    "rds_username sample_cfg = ''admin''" "rds_password sample_cfg = ''secret''"
    by (simp_all add: sample_cfg_def)
  have rest: "s3_put_ok db_exists_env (new_app_version db_exists_env @ ''.zip'')"
    "eb_create_ok db_exists_env (new_app_version db_exists_env)"
    "\<forall>k<2. \<exists>st. version_status db_exists_env (new_app_version db_exists_env) k = Some st \<and> st \<noteq> ''PROCESSED''"
    "version_status db_exists_env (new_app_version db_exists_env) 2 = Some ''PROCESSED''"
    "eb_update_ok db_exists_env (new_app_version db_exists_env)"
    "r53_ok db_exists_env (''acme'' @ ''.'' @ domain (cfg db_exists_env))"
    by (simp_all add: db_exists_env_def sample_env_def)
  from inst [THEN conjunct2, THEN conjunct1, THEN mp] db request_customer [of "''acme''"] stages rest
  have "\<exists>s'. main db_exists_env (request_for ''acme'') fresh_state =
        Some (Return (make_output db_exists_env ''acme'' (new_app_version db_exists_env)
          (''acme'' @ ''.'' @ domain (cfg db_exists_env))), s') \<and>
        R53CreateRecord (hosted_zone_id (cfg db_exists_env)) (''acme'' @ ''.'' @ domain (cfg db_exists_env))
          (eb_url (cfg db_exists_env)) \<in> set (trace s')"
    by blast
  then have third: "\<exists>s'. main db_exists_env (request_for ''acme'') fresh_state =
      Some (Return (make_output sample_env ''acme'' ''example.com-20240101-000000'' ''acme.example.com''), s') \<and>
      R53CreateRecord ''Z1'' ''acme.example.com'' ''shop-prod.elasticbeanstalk.com'' \<in> set (trace s')"
    unfolding label cfg cfg_fields by simp
  from inst [THEN conjunct1, THEN mp, OF db]
  have first: "fst (create_db db_exists_env ''acme'' fresh_state) = Return ()"
    and "trace (snd (create_db db_exists_env ''acme'' fresh_state)) =
        trace fresh_state @
        [DbConnect (rds_hostname (cfg db_exists_env)) (rds_username (cfg db_exists_env))
           (rds_password (cfg db_exists_env)),
         LogInfo (''Creating '' @ ''acme'' @ '' in '' @ rds_hostname (cfg db_exists_env) @ ''...''),
         DbExecute (create_database_stmt ''acme'')] @
        (if \<not> db_execute_ok db_exists_env (create_database_stmt ''acme'') then [LogError, DbRollback, DbClose]
         else if \<not> db_execute_ok db_exists_env (grant_stmt ''acme'' (rds_username (cfg db_exists_env)))
           then [DbExecute (grant_stmt ''acme'' (rds_username (cfg db_exists_env))), LogError, DbRollback, DbClose]
           else [DbExecute (grant_stmt ''acme'' (rds_username (cfg db_exists_env))), DbClose])"
    by blast+
  then have second: "trace (snd (create_db db_exists_env ''acme'' fresh_state)) =
     [DbConnect ''db.internal'' ''admin'' ''secret'', LogInfo ''Creating acme in db.internal...'',
      DbExecute ''CREATE DATABASE acme'', LogError, DbRollback, DbClose]"
    unfolding cfg cfg_fields
    by (simp add: db_exists_env_def fresh_state_def create_database_stmt_def)
  have down: "\<not> db_connect_ok db_down_env"
    by (simp add: db_down_env_def)
  from db_down_stages obtain key' t1 xp' t2 t3 where down_stages:
    "check_version db_down_env fresh_state = (Return key', t1)"
    "download_from_s3 db_down_env key' t1 = (Return xp', t2)"
    "create_vhost db_down_env ''acme'' xp' t2 = (Return (), t3)"
    by blast
  note inst' = statement_errors_do_not_abort [where E = db_down_env and customer = "''acme''"
      and s = fresh_state and event = "request_for ''acme''" and ?s0.0 = fresh_state and key = key'
      and ?s1.0 = t1 and extraction_path = xp' and ?s2.0 = t2 and ?s3.0 = t3]
  from inst' [THEN conjunct2, THEN conjunct2, THEN conjunct1, THEN mp, OF down]
  have fourth: "fst (create_db db_down_env ''acme'' fresh_state) = Raise"
    by simp
  from inst' [THEN conjunct2, THEN conjunct2, THEN conjunct2, THEN mp] down
    request_customer [of "''acme''"] down_stages
  have fifth: "map_option fst (main db_down_env (request_for ''acme'') fresh_state) = Some (SysExit 1)"
    by simp
  from first second third fourth fifth show ?thesis by (intro conjI)
qed

section \<open>The customer identifier\<close>

text \<open>
  C8, as stated, does not hold: the script never inspects the customer identifier. The
  identifier \<^verbatim>\<open>acme corp\<close> (a space is neither a letter, a digit nor an underscore) is
  sent to the database server in a \<^verbatim>\<open>CREATE DATABASE\<close> statement and to the DNS service
  in a record name, and the run ends with the result \<^verbatim>\<open>deployed\<close>, although the server
  rejected the statement.
\<close>

theorem malformed_customer_id_is_accepted:
  "\<not> list_all identifier_char ''acme corp'' \<and>
   map_option (\<lambda>(r, s'). (r,
       DbExecute ''CREATE DATABASE acme corp'' \<in> set (trace s'),
       R53CreateRecord ''Z1'' ''acme corp.example.com'' ''shop-prod.elasticbeanstalk.com'' \<in> set (trace s')))
     (main rejecting_db_env (request_for ''acme corp'') fresh_state) =
   Some (Return (make_output sample_env ''acme corp'' ''example.com-20240101-000000''
           ''acme corp.example.com''), True, True)"
  by (simp add: pipeline_defs sample_defs rejecting_db_env_def identifier_char_def
      poll_status.simps str_nat.simps make_output_def)

text \<open>
  C8, amended. No validation takes place: for every customer identifier, of whatever
  form, for which the stages succeed, the virtual-host file is rendered with the
  identifier as given, the statement \<^verbatim>\<open>CREATE DATABASE\<close> followed by the identifier is
  sent to the database server, the DNS record is requested for the identifier, a dot
  and the domain, and \<^verbatim>\<open>main\<close> returns its result.
\<close>

theorem customer_id_reaches_services_unchecked:
  assumes "event_customer event = Some customerId"
    and "check_version E s = (Return key, s1)"
    and "download_from_s3 E key s1 = (Return extraction_path, s2)"
    and "create_vhost E customerId extraction_path s2 = (Return (), s3)"
    and "db_connect_ok E" "db_rollback_ok E" "db_close_ok E"
    and "make_zip E extraction_path \<noteq> None"
    and "s3_put_ok E (new_app_version E @ ''.zip'')"
    and "eb_create_ok E (new_app_version E)"
    and "\<forall>k<n. \<exists>st. version_status E (new_app_version E) k = Some st \<and> st \<noteq> ''PROCESSED''"
    and "version_status E (new_app_version E) n = Some ''PROCESSED''"
    and "eb_update_ok E (new_app_version E)"
    and "r53_ok E (customerId @ ''.'' @ domain (cfg E))"
  shows "files s3 (vhost_conf_path extraction_path customerId) = Some (vhost_template (cfg E) customerId) \<and>
    (\<exists>s'. main E event s =
       Some (Return (make_output E customerId (new_app_version E) (customerId @ ''.'' @ domain (cfg E))), s') \<and>
       DbExecute (''CREATE DATABASE '' @ customerId) \<in> set (trace s') \<and>
       R53CreateRecord (hosted_zone_id (cfg E)) (customerId @ ''.'' @ domain (cfg E)) (eb_url (cfg E))
         \<in> set (trace s'))"
proof
  from create_vhost_Return [OF assms(4)]
  show "files s3 (vhost_conf_path extraction_path customerId) = Some (vhost_template (cfg E) customerId)"
    by blast
  from main_succeeds [OF assms]
  show "\<exists>s'. main E event s =
       Some (Return (make_output E customerId (new_app_version E) (customerId @ ''.'' @ domain (cfg E))), s') \<and>
       DbExecute (''CREATE DATABASE '' @ customerId) \<in> set (trace s') \<and>
       R53CreateRecord (hosted_zone_id (cfg E)) (customerId @ ''.'' @ domain (cfg E)) (eb_url (cfg E))
         \<in> set (trace s')"
    by (simp add: create_database_stmt_def)
qed

theorem customer_id_reaches_services_unchecked_witness:
  "\<not> list_all identifier_char ''acme corp'' \<and>
   (\<exists>s'. main rejecting_db_env (request_for ''acme corp'') fresh_state =
      Some (Return (make_output sample_env ''acme corp'' ''example.com-20240101-000000''
              ''acme corp.example.com''), s') \<and>
      DbExecute ''CREATE DATABASE acme corp'' \<in> set (trace s') \<and>
      R53CreateRecord ''Z1'' ''acme corp.example.com'' ''shop-prod.elasticbeanstalk.com'' \<in> set (trace s'))"
proof -
  have label: "new_app_version rejecting_db_env = ''example.com-20240101-000000''"
    using sample_label by (simp add: new_app_version_def rejecting_db_env_def)
  have cfg: "cfg rejecting_db_env = sample_cfg" "make_output rejecting_db_env = make_output sample_env"
    by (simp_all add: rejecting_db_env_def sample_env_def make_output_def fun_eq_iff)
  have cfg_fields: "domain sample_cfg = ''example.com''" "hosted_zone_id sample_cfg = ''Z1''"
    "eb_url sample_cfg = ''shop-prod.elasticbeanstalk.com''"
    by (simp_all add: sample_cfg_def)
  from rejecting_db_stages obtain key s1 xp s2 s3 where stages:
    "check_version rejecting_db_env fresh_state = (Return key, s1)"
    "download_from_s3 rejecting_db_env key s1 = (Return xp, s2)"
    "create_vhost rejecting_db_env ''acme corp'' xp s2 = (Return (), s3)"
    "make_zip rejecting_db_env xp \<noteq> None"
    by blast
  have rest: "event_customer (request_for ''acme corp'') = Some ''acme corp''"
    "db_connect_ok rejecting_db_env" "db_rollback_ok rejecting_db_env" "db_close_ok rejecting_db_env"
    "s3_put_ok rejecting_db_env (new_app_version rejecting_db_env @ ''.zip'')"
    "eb_create_ok rejecting_db_env (new_app_version rejecting_db_env)"
    "\<forall>k<2. \<exists>st. version_status rejecting_db_env (new_app_version rejecting_db_env) k = Some st \<and> st \<noteq> ''PROCESSED''"
    "version_status rejecting_db_env (new_app_version rejecting_db_env) 2 = Some ''PROCESSED''"
    "eb_update_ok rejecting_db_env (new_app_version rejecting_db_env)"
    "r53_ok rejecting_db_env (''acme corp'' @ ''.'' @ domain (cfg rejecting_db_env))"
    by (simp_all add: rejecting_db_env_def sample_env_def event_customer_def request_for_def)
  from customer_id_reaches_services_unchecked [OF rest(1) stages(1,2,3) rest(2,3,4) stages(4) rest(5-10)]
  have "\<exists>s'. main rejecting_db_env (request_for ''acme corp'') fresh_state =
       Some (Return (make_output rejecting_db_env ''acme corp'' (new_app_version rejecting_db_env)
         (''acme corp'' @ ''.'' @ domain (cfg rejecting_db_env))), s') \<and>
       DbExecute (''CREATE DATABASE '' @ ''acme corp'') \<in> set (trace s') \<and>
       R53CreateRecord (hosted_zone_id (cfg rejecting_db_env))
         (''acme corp'' @ ''.'' @ domain (cfg rejecting_db_env)) (eb_url (cfg rejecting_db_env))
         \<in> set (trace s')"
    by blast
  then have "\<exists>s'. main rejecting_db_env (request_for ''acme corp'') fresh_state =
      Some (Return (make_output sample_env ''acme corp'' ''example.com-20240101-000000''
              ''acme corp.example.com''), s') \<and>
      DbExecute ''CREATE DATABASE acme corp'' \<in> set (trace s') \<and>
      R53CreateRecord ''Z1'' ''acme corp.example.com'' ''shop-prod.elasticbeanstalk.com'' \<in> set (trace s')"
    unfolding label cfg cfg_fields by simp
  moreover have "\<not> list_all identifier_char ''acme corp''"
    by (simp add: identifier_char_def)
  ultimately show ?thesis by (intro conjI)
qed

section \<open>The artifact locator\<close>

text \<open>
  C3, as stated, does not hold: the key that is returned is not the first one that
  contains the label and ends in \<^verbatim>\<open>.zip\<close>, but the first one in which the label is
  directly followed by \<^verbatim>\<open>.zip\<close>. With the listing \<^verbatim>\<open>v2-final.zip, v2.zip\<close> and the live
  label \<^verbatim>\<open>v2\<close>, the first key contains the label and ends in \<^verbatim>\<open>.zip\<close>, and the answer
  is the second.
\<close>

theorem check_version_prefers_label_before_suffix:
  "s3_keys final_build_env = Some [''v2-final.zip'', ''v2.zip''] \<and>
   eb_health final_build_env = Some ''v2'' \<and>
   find (\<lambda>k. sublist ''v2'' k \<and> suffix ''.zip'' k) [''v2-final.zip'', ''v2.zip''] = Some ''v2-final.zip'' \<and>
   fst (check_version final_build_env fresh_state) = Return (Some ''v2.zip'')"
  by (simp add: check_version_def Let_def can_open_for_writing_def log_and_exit_def record_calls_def
      final_build_env_def sample_defs index_text_def readlines_def search_defs
      object_list_def dst_path_def parent_def dirpart_def basename_def suffix_def sublist_code)

text \<open>
  C3, amended. When no index file is left from an earlier run (or an empty one) and
  some key of the listing ends in the label followed by \<^verbatim>\<open>.zip\<close>, the answer of
  \<^verbatim>\<open>check_version\<close> is the first key in listing order that ends so. It is a key of the
  listing, it contains the label and it ends in \<^verbatim>\<open>.zip\<close>; for the listing
  \<^verbatim>\<open>v1.zip, v2.zip, v3.zip\<close> and the label \<^verbatim>\<open>v2\<close> it is \<^verbatim>\<open>v2.zip\<close>. This is stated for labels
  without a metacharacter other than the dot, for keys without a line terminator and
  without white space at either end, and for listings in which the pattern, read as a
  regular expression, is found in no key but those that end in the label followed by
  \<^verbatim>\<open>.zip\<close>. Nothing is said here about other listings, nor about a listing without such
  a key.
\<close>

theorem check_version_first_key_ending_in_label_and_suffix:
  assumes "files s object_list = None \<or> files s object_list = Some []"
    and "eb_health E = Some v" "s3_keys E = Some keys" "can_open_for_writing s object_list"
    and "list_all no_linebreak keys" "in_fragment v"
    and "\<forall>k\<in>set keys. strip k = k"
    and "\<forall>k\<in>set keys. search_from (v @ ''.zip'') (k @ [CHR 0x0A]) \<longrightarrow> suffix (v @ ''.zip'') k"
    and "\<exists>k\<in>set keys. suffix (v @ ''.zip'') k"
  shows "\<exists>k. find (suffix (v @ ''.zip'')) keys = Some k \<and>
           fst (check_version E s) = Return (Some k) \<and>
           k \<in> set keys \<and> sublist v k \<and> suffix ''.zip'' k"
proof -
  from assms(1) have old: "(case files s object_list of None \<Rightarrow> [] | Some c \<Rightarrow> c) = []"
    by auto
  from assms(6) have frag: "re_search (re_other E) (v @ ''.zip'') = (\<lambda>l. Some (search_from (v @ ''.zip'') l))"
    by (simp add: re_search_def in_fragment_pattern fun_eq_iff)
  have same: "find (\<lambda>k. search_from (v @ ''.zip'') (k @ [CHR 0x0A])) keys = find (suffix (v @ ''.zip'')) keys"
  proof (rule find_cong [OF refl])
    fix k assume "k \<in> set keys"
    with assms(8) search_from_sublist [of "v @ ''.zip''" k "[CHR 0x0A]"]
    show "search_from (v @ ''.zip'') (k @ [CHR 0x0A]) = suffix (v @ ''.zip'') k"
      by (blast dest: suffix_imp_sublist)
  qed
  have "fst (check_version E s) =
      (case first_match (re_search (re_other E) (v @ ''.zip'')) (readlines (index_text keys)) of
         None \<Rightarrow> SysExit 1
       | Some found \<Rightarrow> Return (map_option strip found))"
    using check_version_result [OF assms(2,3,4)] old by simp
  also have "\<dots> = Return (map_option strip
      (map_option (\<lambda>k. k @ [CHR 0x0A]) (find (\<lambda>k. search_from (v @ ''.zip'') (k @ [CHR 0x0A])) keys)))"
    by (simp add: frag readlines_index_text [OF assms(5)] first_match_map)
  also have "\<dots> = Return (map_option strip (find (suffix (v @ ''.zip'')) keys))"
    by (simp add: same option.map_comp comp_def strip_line)
  finally have result: "fst (check_version E s) = Return (map_option strip (find (suffix (v @ ''.zip'')) keys))" .
  from assms(9) obtain k where found: "find (suffix (v @ ''.zip'')) keys = Some k"
    by (cases "find (suffix (v @ ''.zip'')) keys") (auto simp: find_None_iff)
  then have k: "k \<in> set keys" "suffix (v @ ''.zip'') k"
    by (auto simp: find_Some_iff)
  from k(1) assms(7) have unpadded: "strip k = k"
    by blast
  from k(2) obtain before where "k = before @ v @ ''.zip''"
    by (auto simp: suffix_def)
  then have "sublist v k" "suffix ''.zip'' k"
    by (auto simp: sublist_def suffix_def)
  with found result unpadded k(1) show ?thesis
    by simp
qed

theorem check_version_first_key_ending_in_label_and_suffix_witness:
  "s3_keys sample_env = Some [''v1.zip'', ''v2.zip'', ''v3.zip''] \<and> eb_health sample_env = Some ''v2'' \<and>
   files fresh_state object_list = None \<and>
   fst (check_version sample_env fresh_state) = Return (Some ''v2.zip'') \<and>
   fst (check_version final_build_env fresh_state) = Return (Some ''v2.zip'')"
proof -
  have common: "files fresh_state object_list = None \<or> files fresh_state object_list = Some []"
    "can_open_for_writing fresh_state object_list" "in_fragment ''v2''"
    by (simp_all add: fresh_state_def can_open_for_writing_def object_list_def dst_path_def
        parent_def dirpart_def basename_def in_fragment_def re_special_def)
  have sample: "eb_health sample_env = Some ''v2''"
    "s3_keys sample_env = Some [''v1.zip'', ''v2.zip'', ''v3.zip'']"
    "list_all no_linebreak [''v1.zip'', ''v2.zip'', ''v3.zip'']"
    "\<forall>k\<in>set [''v1.zip'', ''v2.zip'', ''v3.zip'']. strip k = k"
    "\<forall>k\<in>set [''v1.zip'', ''v2.zip'', ''v3.zip''].
       search_from (''v2'' @ ''.zip'') (k @ [CHR 0x0A]) \<longrightarrow> suffix (''v2'' @ ''.zip'') k"
    "\<exists>k\<in>set [''v1.zip'', ''v2.zip'', ''v3.zip'']. suffix (''v2'' @ ''.zip'') k"
    by (simp_all add: sample_env_def no_linebreak_def strip_def py_isspace_def suffix_to_prefix)
  have final: "eb_health final_build_env = Some ''v2''"
    "s3_keys final_build_env = Some [''v2-final.zip'', ''v2.zip'']"
    "list_all no_linebreak [''v2-final.zip'', ''v2.zip'']"
    "\<forall>k\<in>set [''v2-final.zip'', ''v2.zip'']. strip k = k"
    "\<forall>k\<in>set [''v2-final.zip'', ''v2.zip''].
       search_from (''v2'' @ ''.zip'') (k @ [CHR 0x0A]) \<longrightarrow> suffix (''v2'' @ ''.zip'') k"
    "\<exists>k\<in>set [''v2-final.zip'', ''v2.zip'']. suffix (''v2'' @ ''.zip'') k"
    by (simp_all add: final_build_env_def sample_env_def no_linebreak_def strip_def py_isspace_def
        suffix_to_prefix)
  from check_version_first_key_ending_in_label_and_suffix
    [OF common(1) sample(1,2) common(2) sample(3) common(3) sample(4,5,6)]
  have first: "fst (check_version sample_env fresh_state) = Return (Some ''v2.zip'')"
    by (simp add: suffix_to_prefix)
  from check_version_first_key_ending_in_label_and_suffix
    [OF common(1) final(1,2) common(2) final(3) common(3) final(4,5,6)]
  have second: "fst (check_version final_build_env fresh_state) = Return (Some ''v2.zip'')"
    by (simp add: suffix_to_prefix)
  have "files fresh_state object_list = None"
    by (simp add: fresh_state_def)
  with sample(1,2) first second show ?thesis by (intro conjI)
qed

text \<open>
  Outside these listings the pattern shows what it is, a regular expression that is
  neither escaped nor anchored: with the listing \<^verbatim>\<open>v2-zip-manifest.json, v2.zip\<close> the
  answer is the manifest, and with the listing \<^verbatim>\<open>v2.zip.bak, v2.zip\<close> it is the backup
  copy, neither of which ends in \<^verbatim>\<open>.zip\<close>; with the label \<^verbatim>\<open>v1.2\<close> and the listing
  \<^verbatim>\<open>v1-2.zip, v1.2.zip\<close> it is \<^verbatim>\<open>v1-2.zip\<close>, which does not contain the label.
\<close>

lemma pattern_is_read_as_regular_expression:
  "fst (check_version manifest_env fresh_state) = Return (Some ''v2-zip-manifest.json'') \<and>
   \<not> suffix ''.zip'' ''v2-zip-manifest.json'' \<and>
   fst (check_version backup_env fresh_state) = Return (Some ''v2.zip.bak'') \<and>
   \<not> suffix ''.zip'' ''v2.zip.bak'' \<and>
   fst (check_version dotted_env fresh_state) = Return (Some ''v1-2.zip'') \<and>
   \<not> sublist ''v1.2'' ''v1-2.zip''"
  by (simp add: check_version_def Let_def can_open_for_writing_def log_and_exit_def record_calls_def
      manifest_env_def backup_env_def dotted_env_def sample_defs index_text_def readlines_def search_defs
      object_list_def dst_path_def parent_def dirpart_def basename_def suffix_def sublist_code)

text \<open>
  The key that is returned has gone through \<^verbatim>\<open>str.strip()\<close>, which takes more than the
  line terminator off: with the label \<^verbatim>\<open> v2\<close> and a key \<^verbatim>\<open> v2.zip\<close>, both with a blank in
  front, the answer is \<^verbatim>\<open>v2.zip\<close>, which is no key of the listing and does not contain
  the label.
\<close>

lemma key_is_returned_without_surrounding_space:
  "s3_keys padded_env = Some ['' v2.zip''] \<and>
   fst (check_version padded_env fresh_state) = Return (Some ''v2.zip'') \<and>
   \<not> sublist '' v2'' ''v2.zip''"
  by (simp add: check_version_def Let_def can_open_for_writing_def log_and_exit_def record_calls_def
      padded_env_def sample_defs index_text_def readlines_def search_defs
      object_list_def dst_path_def parent_def dirpart_def basename_def sublist_code)


text \<open>
  C4. When no key matches, \<^verbatim>\<open>check_version\<close> does not fail: the loop runs off the end of
  the index file and the function returns \<^verbatim>\<open>None\<close> to \<^verbatim>\<open>main\<close>, which hands it to
  \<^verbatim>\<open>download_from_s3\<close>. That function builds the path \<^verbatim>\<open>/tmp/None\<close> from it, and the run
  ends there, in the handler of the download.
\<close>

theorem check_version_without_match_returns_None:
  "fst (check_version unmatched_env fresh_state) = Return None \<and>
   map_option (\<lambda>(r, s'). (r, trace s')) (main unmatched_env (request_for ''acme'') fresh_state) =
     Some (SysExit 1,
       [LogInfo ''Getting app version'', EbDescribeInstancesHealth ''shop-prod'',
        LogInfo ''Current app version: v9'', LogInfo ''Finding the app version in shop-builds'',
        S3ListObjects ''shop-builds'', LogInfo ''Downloading app version to /tmp/None'', LogError])"
  by (simp add: pipeline_defs unmatched_env_def sample_defs)

text \<open>
  C10. The index file is opened for appending, so what it holds already is kept and is
  read before the lines of the current listing: when it holds the index of an earlier
  listing \<open>stale\<close>, the file holds the index of \<open>stale\<close> followed by \<open>keys\<close> afterwards,
  and the answer is the first matching line among those of \<open>stale\<close> followed by those
  of \<open>keys\<close>. There are file contents for which \<^verbatim>\<open>check_version\<close> returns a key that
  the current listing does not contain.
\<close>

theorem check_version_searches_stale_index_first:
  "(files s object_list = Some (index_text stale) \<and> eb_health E = Some v \<and> s3_keys E = Some keys \<and>
    can_open_for_writing s object_list \<and> list_all no_linebreak (stale @ keys) \<longrightarrow>
      files (snd (check_version E s)) object_list = Some (index_text (stale @ keys)) \<and>
      fst (check_version E s) =
        (case first_match (re_search (re_other E) (v @ ''.zip''))
                (map (\<lambda>k. k @ [CHR 0x0A]) stale @ map (\<lambda>k. k @ [CHR 0x0A]) keys) of
           None \<Rightarrow> SysExit 1
         | Some found \<Rightarrow> Return (map_option strip found))) \<and>
   (\<exists>E s keys k. s3_keys E = Some keys \<and> fst (check_version E s) = Return (Some k) \<and> k \<notin> set keys)"
proof (intro conjI impI)
  assume a: "files s object_list = Some (index_text stale) \<and> eb_health E = Some v \<and>
    s3_keys E = Some keys \<and> can_open_for_writing s object_list \<and> list_all no_linebreak (stale @ keys)"
  then have lines: "readlines (index_text stale @ index_text keys) =
      map (\<lambda>k. k @ [CHR 0x0A]) stale @ map (\<lambda>k. k @ [CHR 0x0A]) keys"
    using readlines_index_text [of "stale @ keys"] by (simp add: index_text_append)
  from a have b: "eb_health E = Some v" "s3_keys E = Some keys" "can_open_for_writing s object_list"
    by simp_all
  from a check_version_result [OF b]
  show "files (snd (check_version E s)) object_list = Some (index_text (stale @ keys))"
    by (simp add: index_text_append)
  from a check_version_result [OF b] lines
  show "fst (check_version E s) =
        (case first_match (re_search (re_other E) (v @ ''.zip''))
                (map (\<lambda>k. k @ [CHR 0x0A]) stale @ map (\<lambda>k. k @ [CHR 0x0A]) keys) of
           None \<Rightarrow> SysExit 1
         | Some found \<Rightarrow> Return (map_option strip found))"
    by simp
next
  have "s3_keys moved_on_env = Some [''v3.zip'']"
    by (simp add: moved_on_env_def)
  moreover have "fst (check_version moved_on_env stale_state) = Return (Some ''v2.zip'')"
    by (simp add: check_version_def Let_def can_open_for_writing_def log_and_exit_def record_calls_def
        moved_on_env_def stale_state_def sample_defs index_text_def readlines_def search_defs
        object_list_def dst_path_def parent_def dirpart_def basename_def)
  moreover have "''v2.zip'' \<notin> set [''v3.zip'']"
    by simp
  ultimately show "\<exists>E s keys k. s3_keys E = Some keys \<and> fst (check_version E s) = Return (Some k) \<and> k \<notin> set keys"
    by blast
qed

theorem check_version_searches_stale_index_first_witness:
  "files stale_state object_list = Some (index_text [''v2.zip'']) \<and>
   s3_keys moved_on_env = Some [''v3.zip''] \<and>
   files (snd (check_version moved_on_env stale_state)) object_list =
     Some ''v2.zip\<newline>v3.zip\<newline>'' \<and>
   fst (check_version moved_on_env stale_state) = Return (Some ''v2.zip'') \<and>
   ''v2.zip'' \<notin> set [''v3.zip'']"
proof -
  have hyps: "files stale_state object_list = Some (index_text [''v2.zip''])"
    "eb_health moved_on_env = Some ''v2''" "s3_keys moved_on_env = Some [''v3.zip'']"
    "can_open_for_writing stale_state object_list"
    "list_all no_linebreak ([''v2.zip''] @ [''v3.zip''])"
    by (simp_all add: stale_state_def moved_on_env_def sample_defs can_open_for_writing_def
        object_list_def dst_path_def parent_def dirpart_def basename_def no_linebreak_def)
  note inst = check_version_searches_stale_index_first [where s = stale_state and E = moved_on_env
      and stale = "[''v2.zip'']" and keys = "[''v3.zip'']" and v = "''v2''", THEN conjunct1, THEN mp]
  from inst hyps
  have "files (snd (check_version moved_on_env stale_state)) object_list =
      Some (index_text ([''v2.zip''] @ [''v3.zip'']))"
    and "fst (check_version moved_on_env stale_state) =
        (case first_match (re_search (re_other moved_on_env) (''v2'' @ ''.zip''))
                (map (\<lambda>k. k @ [CHR 0x0A]) [''v2.zip''] @ map (\<lambda>k. k @ [CHR 0x0A]) [''v3.zip'']) of
           None \<Rightarrow> SysExit 1
         | Some found \<Rightarrow> Return (map_option strip found))"
    by blast+
  then have "files (snd (check_version moved_on_env stale_state)) object_list =
      Some ''v2.zip\<newline>v3.zip\<newline>''"
    and "fst (check_version moved_on_env stale_state) = Return (Some ''v2.zip'')"
    by (simp_all add: index_text_def search_defs)
  with hyps(1,3) show ?thesis by simp
qed

section \<open>The version label\<close>

text \<open>
  C6, as stated, does not hold: the label is built from \<^verbatim>\<open>datetime.now()\<close>, the wall
  clock of the local time zone, not from the UTC clock. On a machine eight hours ahead
  of UTC, at midnight UTC, the label carries \<^verbatim>\<open>080000\<close>.
\<close>

theorem version_label_reads_utc_clock_refuted:
  "new_app_version manila_env = ''example.com-20240101-080000'' \<and>
   domain (cfg manila_env) @ ''-'' @ compact_timestamp (utcnow manila_env) = ''example.com-20240101-000000'' \<and>
   new_app_version manila_env \<noteq> domain (cfg manila_env) @ ''-'' @ compact_timestamp (utcnow manila_env)"
  by (simp add: new_app_version_def compact_timestamp_def format_d_def str_nat.simps digit_char_def
      manila_env_def sample_env_def sample_cfg_def)

text \<open>
  C6, amended. The version label that \<^verbatim>\<open>deploy_app\<close> generates and returns is the
  configured domain, a hyphen and the reading of the local clock, truncated to seconds,
  in the form \<^verbatim>\<open>YYYYMMDD-HHMMSS\<close> (four digits of the year, two of each other field).
  Two runs have the same label exactly when their domains are the same and their clock
  readings agree in every field down to the second; so runs whose readings differ, or
  whose domains differ, have distinct labels.
\<close>

theorem version_label_from_local_clock:
  "new_app_version E = domain (cfg E) @ ''-'' @ compact_timestamp (now E) \<and>
   (deploy_app E dir_name s = Some (Return v, s') \<longrightarrow> v = new_app_version E) \<and>
   (valid_datetime (now E) \<longrightarrow>
      compact_timestamp (now E) =
        [digit_char (year (now E) div 1000), digit_char (year (now E) div 100 mod 10),
         digit_char (year (now E) div 10 mod 10), digit_char (year (now E) mod 10),
         digit_char (month (now E) div 10), digit_char (month (now E) mod 10),
         digit_char (day (now E) div 10), digit_char (day (now E) mod 10), CHR ''-'',
         digit_char (hour (now E) div 10), digit_char (hour (now E) mod 10),
         digit_char (minute (now E) div 10), digit_char (minute (now E) mod 10),
         digit_char (second (now E) div 10), digit_char (second (now E) mod 10)]) \<and>
   (valid_datetime (now E) \<and> valid_datetime (now E') \<longrightarrow>
      (new_app_version E = new_app_version E') =
      (domain (cfg E) = domain (cfg E') \<and> now E = now E'))"
proof (intro conjI impI)
  show "new_app_version E = domain (cfg E) @ ''-'' @ compact_timestamp (now E)"
    by (simp add: new_app_version_def)
next
  assume "deploy_app E dir_name s = Some (Return v, s')"
  from deploy_app_Return [OF this] show "v = new_app_version E" by blast
next
  assume "valid_datetime (now E)"
  then show "compact_timestamp (now E) =
        [digit_char (year (now E) div 1000), digit_char (year (now E) div 100 mod 10),
         digit_char (year (now E) div 10 mod 10), digit_char (year (now E) mod 10),
         digit_char (month (now E) div 10), digit_char (month (now E) mod 10),
         digit_char (day (now E) div 10), digit_char (day (now E) mod 10), CHR ''-'',
         digit_char (hour (now E) div 10), digit_char (hour (now E) mod 10),
         digit_char (minute (now E) div 10), digit_char (minute (now E) mod 10),
         digit_char (second (now E) div 10), digit_char (second (now E) mod 10)]"
    by (rule compact_timestamp_digits)
next
  assume "valid_datetime (now E) \<and> valid_datetime (now E')"
  then show "(new_app_version E = new_app_version E') =
      (domain (cfg E) = domain (cfg E') \<and> now E = now E')"
    by (simp add: new_app_version_eq_iff)
qed

theorem version_label_from_local_clock_witness:
  "valid_datetime (now manila_env) \<and> valid_datetime (now sample_env) \<and>
   valid_datetime (now other_domain_env) \<and>
   compact_timestamp (now manila_env) = ''20240101-080000'' \<and>
   new_app_version manila_env \<noteq> new_app_version sample_env \<and>
   new_app_version sample_env \<noteq> new_app_version other_domain_env"
proof -
  have valid: "valid_datetime (now manila_env)" "valid_datetime (now sample_env)"
    "valid_datetime (now other_domain_env)"
    by (simp_all add: valid_datetime_def manila_env_def sample_env_def other_domain_env_def)
  have differ: "now manila_env \<noteq> now sample_env"
    "domain (cfg sample_env) \<noteq> domain (cfg other_domain_env)"
    by (simp_all add: manila_env_def sample_env_def sample_cfg_def other_domain_env_def)
  note first = version_label_from_local_clock [where E = manila_env and E' = sample_env]
  note second = version_label_from_local_clock [where E = sample_env and E' = other_domain_env]
  from first [THEN conjunct2, THEN conjunct2, THEN conjunct1, THEN mp, OF valid(1)]
  have shape: "compact_timestamp (now manila_env) = ''20240101-080000''"
    by (simp add: manila_env_def digit_char_def)
  from first [THEN conjunct2, THEN conjunct2, THEN conjunct2, THEN mp] valid differ
  have "new_app_version manila_env \<noteq> new_app_version sample_env"
    by blast
  moreover from second [THEN conjunct2, THEN conjunct2, THEN conjunct2, THEN mp] valid differ
  have "new_app_version sample_env \<noteq> new_app_version other_domain_env"
    by blast
  ultimately show ?thesis using valid shape by (intro conjI)
qed

section \<open>The virtual-host file\<close>

text \<open>
  C9. For the customer \<^verbatim>\<open>acme\<close> and the domain \<^verbatim>\<open>example.com\<close>, with connection parameters
  that hold no line terminator, the file \<^verbatim>\<open>create_vhost\<close> writes consists of the eleven
  lines below: one opening and one closing \<^verbatim>\<open>VirtualHost\<close> line, the lines
  \<^verbatim>\<open>ServerName acme.example.com\<close> and \<^verbatim>\<open>ServerAlias www.acme.example.com\<close>, and one
  \<^verbatim>\<open>SetEnv\<close> line each for the host, the database name \<^verbatim>\<open>acme\<close>, the user name, the
  password and the port.
\<close>

theorem vhost_for_acme:
  assumes "domain (cfg E) = ''example.com''"
    and "no_linebreak (rds_hostname (cfg E))" "no_linebreak (rds_username (cfg E))"
      "no_linebreak (rds_password (cfg E))" "no_linebreak (rds_port (cfg E))"
  shows "(create_vhost E ''acme'' extraction_path s = (Return (), s') \<longrightarrow>
      files s' (extraction_path @ ''/.ebextensions/vhosts/acme.conf'') =
        Some (vhost_template (cfg E) ''acme'')) \<and>
    readlines (vhost_template (cfg E) ''acme'') =
      [''<VirtualHost *:80>\<newline>'',
       ''    ServerName acme.example.com\<newline>'',
       ''    ServerAlias www.acme.example.com\<newline>'',
       ''    DocumentRoot /var/www/clients/acme\<newline>'',
       ''\<newline>'',
       ''    SetEnv RDS_HOSTNAME '' @ [CHR 0x22] @ rds_hostname (cfg E) @ [CHR 0x22, CHR 0x0A],
       ''    SetEnv RDS_DB_NAME '' @ [CHR 0x22] @ ''acme'' @ [CHR 0x22, CHR 0x0A],
       ''    SetEnv RDS_USERNAME '' @ [CHR 0x22] @ rds_username (cfg E) @ [CHR 0x22, CHR 0x0A],
       ''    SetEnv RDS_PASSWORD '' @ [CHR 0x22] @ rds_password (cfg E) @ [CHR 0x22, CHR 0x0A],
       ''    SetEnv RDS_PORT '' @ [CHR 0x22] @ rds_port (cfg E) @ [CHR 0x22, CHR 0x0A],
       ''</VirtualHost>\<newline>''] \<and>
    length (filter (prefix ''<VirtualHost'') (readlines (vhost_template (cfg E) ''acme''))) = 1 \<and>
    length (filter (prefix ''</VirtualHost>'') (readlines (vhost_template (cfg E) ''acme''))) = 1"
proof -
  have lines: "readlines (vhost_template (cfg E) ''acme'') =
      [''<VirtualHost *:80>\<newline>'',
       ''    ServerName acme.example.com\<newline>'',
       ''    ServerAlias www.acme.example.com\<newline>'',
       ''    DocumentRoot /var/www/clients/acme\<newline>'',
       ''\<newline>'',
       ''    SetEnv RDS_HOSTNAME '' @ [CHR 0x22] @ rds_hostname (cfg E) @ [CHR 0x22, CHR 0x0A],
       ''    SetEnv RDS_DB_NAME '' @ [CHR 0x22] @ ''acme'' @ [CHR 0x22, CHR 0x0A],
       ''    SetEnv RDS_USERNAME '' @ [CHR 0x22] @ rds_username (cfg E) @ [CHR 0x22, CHR 0x0A],
       ''    SetEnv RDS_PASSWORD '' @ [CHR 0x22] @ rds_password (cfg E) @ [CHR 0x22, CHR 0x0A],
       ''    SetEnv RDS_PORT '' @ [CHR 0x22] @ rds_port (cfg E) @ [CHR 0x22, CHR 0x0A],
       ''</VirtualHost>\<newline>'']"
    using assms by (simp add: readlines_def vhost_template_def split_lines_unbroken)
  have written: "files s' (extraction_path @ ''/.ebextensions/vhosts/acme.conf'') =
        Some (vhost_template (cfg E) ''acme'')"
    if "create_vhost E ''acme'' extraction_path s = (Return (), s')"
    using create_vhost_Return [OF that] by (simp add: vhost_conf_path_def)
  show ?thesis
    unfolding lines using written by simp
qed

theorem vhost_for_acme_witness:
  "domain (cfg sample_env) = ''example.com'' \<and>
   fst (create_vhost sample_env ''acme'' ''/tmp/v2''
     (unpacked_state\<lparr>dirs := insert ''/tmp/v2/.ebextensions/vhosts'' (dirs unpacked_state)\<rparr>)) = Return () \<and>
   files (snd (create_vhost sample_env ''acme'' ''/tmp/v2''
     (unpacked_state\<lparr>dirs := insert ''/tmp/v2/.ebextensions/vhosts'' (dirs unpacked_state)\<rparr>)))
     ''/tmp/v2/.ebextensions/vhosts/acme.conf'' = Some (vhost_template sample_cfg ''acme'') \<and>
   readlines (vhost_template sample_cfg ''acme'') =
      [''<VirtualHost *:80>\<newline>'',
       ''    ServerName acme.example.com\<newline>'',
       ''    ServerAlias www.acme.example.com\<newline>'',
       ''    DocumentRoot /var/www/clients/acme\<newline>'',
       ''\<newline>'',
       ''    SetEnv RDS_HOSTNAME '' @ [CHR 0x22] @ ''db.internal'' @ [CHR 0x22, CHR 0x0A],
       ''    SetEnv RDS_DB_NAME '' @ [CHR 0x22] @ ''acme'' @ [CHR 0x22, CHR 0x0A],
       ''    SetEnv RDS_USERNAME '' @ [CHR 0x22] @ ''admin'' @ [CHR 0x22, CHR 0x0A],
       ''    SetEnv RDS_PASSWORD '' @ [CHR 0x22] @ ''secret'' @ [CHR 0x22, CHR 0x0A],
       ''    SetEnv RDS_PORT '' @ [CHR 0x22] @ ''3306'' @ [CHR 0x22, CHR 0x0A],
       ''</VirtualHost>\<newline>''] \<and>
   length (filter (prefix ''<VirtualHost'') (readlines (vhost_template sample_cfg ''acme''))) = 1"
proof -
  let ?s = "unpacked_state\<lparr>dirs := insert ''/tmp/v2/.ebextensions/vhosts'' (dirs unpacked_state)\<rparr>"
  have cfg: "cfg sample_env = sample_cfg" by (simp add: sample_env_def)
  have hyps: "domain (cfg sample_env) = ''example.com''"
    "no_linebreak (rds_hostname (cfg sample_env))" "no_linebreak (rds_username (cfg sample_env))"
    "no_linebreak (rds_password (cfg sample_env))" "no_linebreak (rds_port (cfg sample_env))"
    by (simp_all add: sample_env_def sample_cfg_def no_linebreak_def)
  have ret: "create_vhost sample_env ''acme'' ''/tmp/v2'' ?s =
      (Return (), snd (create_vhost sample_env ''acme'' ''/tmp/v2'' ?s))"
    by (simp add: create_vhost_def Let_def can_open_for_writing_def vhost_conf_path_def
        parent_def dirpart_def basename_def unpacked_state_def fresh_state_def)
  note inst = vhost_for_acme [OF hyps, where extraction_path = "''/tmp/v2''" and s = ?s
      and s' = "snd (create_vhost sample_env ''acme'' ''/tmp/v2'' ?s)"]
  from inst [THEN conjunct1, THEN mp, OF ret]
  have written: "files (snd (create_vhost sample_env ''acme'' ''/tmp/v2'' ?s))
     ''/tmp/v2/.ebextensions/vhosts/acme.conf'' = Some (vhost_template sample_cfg ''acme'')"
    by (simp add: cfg)
  from inst [THEN conjunct2, THEN conjunct1]
  have lines: "readlines (vhost_template sample_cfg ''acme'') =
      [''<VirtualHost *:80>\<newline>'',
       ''    ServerName acme.example.com\<newline>'',
       ''    ServerAlias www.acme.example.com\<newline>'',
       ''    DocumentRoot /var/www/clients/acme\<newline>'',
       ''\<newline>'',
       ''    SetEnv RDS_HOSTNAME '' @ [CHR 0x22] @ ''db.internal'' @ [CHR 0x22, CHR 0x0A],
       ''    SetEnv RDS_DB_NAME '' @ [CHR 0x22] @ ''acme'' @ [CHR 0x22, CHR 0x0A],
       ''    SetEnv RDS_USERNAME '' @ [CHR 0x22] @ ''admin'' @ [CHR 0x22, CHR 0x0A],
       ''    SetEnv RDS_PASSWORD '' @ [CHR 0x22] @ ''secret'' @ [CHR 0x22, CHR 0x0A],
       ''    SetEnv RDS_PORT '' @ [CHR 0x22] @ ''3306'' @ [CHR 0x22, CHR 0x0A],
       ''</VirtualHost>\<newline>'']"
    unfolding cfg by (simp add: sample_cfg_def)
  from inst [THEN conjunct2, THEN conjunct2, THEN conjunct1]
  have count: "length (filter (prefix ''<VirtualHost'') (readlines (vhost_template sample_cfg ''acme''))) = 1"
    by (simp only: cfg)
  from ret have "fst (create_vhost sample_env ''acme'' ''/tmp/v2'' ?s) = Return ()"
    by (simp add: prod_eq_iff)
  with hyps(1) written lines count show ?thesis by (intro conjI)
qed

end
